theory Spec2Isabelle
  imports Main "HOL-Library.Sublist" "HOL-Library.Word"
begin

section \<open>JavaScript strings\<close>

text \<open>
  Strings are character lists. The helpers below are the string methods the TypeScript
  sources call: \<^verbatim>\<open>trim\<close>, \<^verbatim>\<open>toUpperCase\<close>, \<^verbatim>\<open>includes\<close>, \<^verbatim>\<open>startsWith\<close>,
  \<^verbatim>\<open>split\<close> with a string separator, \<^verbatim>\<open>replace\<close> with a string pattern (first
  occurrence only) and \<^verbatim>\<open>join\<close>.
\<close>

definition is_space :: "char \<Rightarrow> bool" where
  \<comment> \<open>White space and line terminators of ECMAScript among the 8-bit characters:
      TAB, LF, VT, FF, CR, SP and NBSP.\<close>
  "is_space c = (c \<in> set [CHR 0x09, CHR 0x0A, CHR 0x0B, CHR 0x0C, CHR 0x0D, CHR 0x20, CHR 0xA0])"

definition trim :: "string \<Rightarrow> string" where
  "trim s = rev (dropWhile is_space (rev (dropWhile is_space s)))"

definition upper_char :: "char \<Rightarrow> string" where
  \<comment> \<open>a-z and the accented letters 0xE0-0xFE (but the division sign 0xF7) move down by 32;
      the sharp s 0xDF becomes SS; every other character stays (the upper case of the
      micro sign 0xB5 and of 0xFF is beyond the 8-bit characters; it is no letter of STOP).\<close>
  "upper_char c =
     (let n = (of_char c :: nat) in
      if 97 \<le> n \<and> n \<le> 122 then [char_of (n - 32)]
      else if 224 \<le> n \<and> n \<le> 254 \<and> n \<noteq> 247 then [char_of (n - 32)]
      else if n = 223 then ''SS''
      else [c])"

definition toUpperCase :: "string \<Rightarrow> string" where
  "toUpperCase s = concat (map upper_char s)"

fun find_sub :: "string \<Rightarrow> string \<Rightarrow> (string \<times> string) option" where
  \<comment> \<open>The first occurrence of \<open>sep\<close> in the string: the text before it and the text after it.\<close>
  "find_sub sep [] = (if sep = [] then Some ([], []) else None)"
| "find_sub sep (c # cs) =
     (if prefix sep (c # cs) then Some ([], drop (length sep) (c # cs))
      else (case find_sub sep cs of
              None \<Rightarrow> None
            | Some (b, a) \<Rightarrow> Some (c # b, a)))"

definition includes_str :: "string \<Rightarrow> string \<Rightarrow> bool" where
  \<comment> \<open>\<^verbatim>\<open>s.includes(sep)\<close>\<close>
  "includes_str sep s = (find_sub sep s \<noteq> None)"

definition startsWith :: "string \<Rightarrow> string \<Rightarrow> bool" where
  \<comment> \<open>\<^verbatim>\<open>s.startsWith(sep)\<close>\<close>
  "startsWith sep s = prefix sep s"

definition replace_first :: "string \<Rightarrow> string \<Rightarrow> string \<Rightarrow> string" where
  \<comment> \<open>\<^verbatim>\<open>s.replace(pat, rep)\<close> with a string pattern: only the first occurrence is replaced.\<close>
  "replace_first pat rep s =
     (case find_sub pat s of None \<Rightarrow> s | Some (b, a) \<Rightarrow> b @ rep @ a)"

lemma find_sub_decomp: "find_sub sep s = Some (b, a) \<Longrightarrow> s = b @ sep @ a"
proof (induction s arbitrary: b a)
  case Nil
  then show ?case by (simp split: if_splits)
next
  case (Cons c cs)
  show ?case
  proof (cases "prefix sep (c # cs)")
    case True
    with Cons.prems have "b = []" and "a = drop (length sep) (c # cs)" by simp_all
    moreover from True obtain r where "c # cs = sep @ r" by (auto simp: prefix_def)
    ultimately show ?thesis by simp
  next
    case False
    with Cons.prems obtain b' where "find_sub sep cs = Some (b', a)" and "b = c # b'"
      by (auto split: option.splits)
    with Cons.IH show ?thesis by simp
  qed
qed

lemma find_sub_shorter:
  "find_sub sep s = Some (b, a) \<Longrightarrow> sep \<noteq> [] \<Longrightarrow> length a < length s"
  by (drule find_sub_decomp) (cases sep, simp_all)

function split_str :: "string \<Rightarrow> string \<Rightarrow> string list" where
  \<comment> \<open>\<^verbatim>\<open>s.split(sep)\<close>: the pieces between the occurrences of the separator, read left to
      right; the empty separator splits into single characters.\<close>
  "split_str sep s =
     (if sep = [] then map (\<lambda>c. [c]) s
      else (case find_sub sep s of
              None \<Rightarrow> [s]
            | Some (b, a) \<Rightarrow> b # split_str sep a))"
  by pat_completeness auto
termination
  by (relation "measure (\<lambda>(sep, s). length s)") (auto dest: find_sub_shorter)

declare split_str.simps [simp del]

fun join :: "string \<Rightarrow> string list \<Rightarrow> string" where
  \<comment> \<open>\<^verbatim>\<open>xs.join(sep)\<close>\<close>
  "join sep [] = []"
| "join sep [x] = x"
| "join sep (x # y # ys) = x @ sep @ join sep (y # ys)"

definition nth_opt :: "'a list \<Rightarrow> nat \<Rightarrow> 'a option" where
  \<comment> \<open>Reading an array by index: out of range is \<open>undefined\<close>, here \<open>None\<close>.\<close>
  "nth_opt xs i = (if i < length xs then Some (xs ! i) else None)"

section \<open>JavaScript values\<close>

text \<open>
  The values a result cell can hold, as a tree of data: \<open>undefined\<close>, \<open>null\<close>, booleans,
  numbers, big integers, strings, arrays and objects. An object is its own enumerable
  members in the order in which the engine lists them, keys distinct; it has no
  \<open>toJSON\<close> and no members beyond them. Cyclic values are not trees and are not covered.

  A number is an integer from \<open>-2^53\<close> to \<open>2^53 - 1\<close> (the signed value of a 54-bit word:
  each of them is a number of the language, and both zeros are the integer 0), or
  \<open>NaN\<close>, or an infinity, or any other finite number. The text that the language writes
  for a number of the last kind (\<open>1.5\<close>, \<open>1e+21\<close>, \<open>2.5e-7\<close>) is not computed here: such
  a number is held as that text.
\<close>

datatype jsnum =
    NInt "54 word"
  | NOther string
  | NaN
  | PosInfinity
  | NegInfinity

datatype jsval =
    JUndefined
  | JNull
  | JBool bool
  | JNum jsnum
  | JBigInt int
  | JStr string
  | JArr "jsval list"
  | JObj "(string \<times> jsval) list"

datatype js_error =
    Error string      \<comment> \<open>an \<^verbatim>\<open>Error\<close> object with its message\<close>
  | Thrown jsval      \<comment> \<open>any other thrown value\<close>

definition digit_char :: "nat \<Rightarrow> char" where
  "digit_char n = char_of (48 + n)"

function show_nat :: "nat \<Rightarrow> string" where
  "show_nat n = (if n < 10 then [digit_char n] else show_nat (n div 10) @ [digit_char (n mod 10)])"
  by pat_completeness auto
termination
  by (relation "measure (\<lambda>n. n)") auto

declare show_nat.simps [simp del]

definition show_int :: "int \<Rightarrow> string" where
  "show_int i = (if i < 0 then ''-'' @ show_nat (nat (- i)) else show_nat (nat i))"

fun num_string :: "jsnum \<Rightarrow> string" where
  \<comment> \<open>\<^verbatim>\<open>String(x)\<close> of a number\<close>
  "num_string (NInt w) = show_int (sint w)"
| "num_string (NOther t) = t"
| "num_string NaN = ''NaN''"
| "num_string PosInfinity = ''Infinity''"
| "num_string NegInfinity = ''-Infinity''"

fun num_truthy :: "jsnum \<Rightarrow> bool" where
  \<comment> \<open>Zero and \<open>NaN\<close> are falsy.\<close>
  "num_truthy (NInt w) = (w \<noteq> 0)"
| "num_truthy (NOther t) = True"
| "num_truthy NaN = False"
| "num_truthy PosInfinity = True"
| "num_truthy NegInfinity = True"

fun num_json :: "jsnum \<Rightarrow> string" where
  \<comment> \<open>\<^verbatim>\<open>JSON.stringify(x)\<close> of a number: a number that is not finite is written \<open>null\<close>.\<close>
  "num_json (NInt w) = show_int (sint w)"
| "num_json (NOther t) = t"
| "num_json NaN = ''null''"
| "num_json PosInfinity = ''null''"
| "num_json NegInfinity = ''null''"

fun js_typeof :: "jsval \<Rightarrow> string" where
  "js_typeof JUndefined = ''undefined''"
| "js_typeof JNull = ''object''"
| "js_typeof (JBool b) = ''boolean''"
| "js_typeof (JNum x) = ''number''"
| "js_typeof (JBigInt n) = ''bigint''"
| "js_typeof (JStr s) = ''string''"
| "js_typeof (JArr xs) = ''object''"
| "js_typeof (JObj kvs) = ''object''"

fun js_truthy :: "jsval \<Rightarrow> bool" where
  "js_truthy JUndefined = False"
| "js_truthy JNull = False"
| "js_truthy (JBool b) = b"
| "js_truthy (JNum x) = num_truthy x"
| "js_truthy (JBigInt n) = (n \<noteq> 0)"
| "js_truthy (JStr s) = (s \<noteq> [])"
| "js_truthy (JArr xs) = True"
| "js_truthy (JObj kvs) = True"

fun js_string :: "jsval \<Rightarrow> string" where
  \<comment> \<open>\<^verbatim>\<open>String(v)\<close>, also what a template literal inserts.\<close>
  "js_string JUndefined = ''undefined''"
| "js_string JNull = ''null''"
| "js_string (JBool b) = (if b then ''true'' else ''false'')"
| "js_string (JNum x) = num_string x"
| "js_string (JBigInt n) = show_int n"
| "js_string (JStr s) = s"
| "js_string (JArr xs) =
     join '','' (map (\<lambda>v. if v = JUndefined \<or> v = JNull then [] else js_string v) xs)"
| "js_string (JObj kvs) = ''[object Object]''"

fun js_get :: "jsval \<Rightarrow> string \<Rightarrow> jsval" where
  \<comment> \<open>Reading a named property of an object or array value: a key the object does not
      hold reads as \<open>undefined\<close>. (Only read with keys that no array has.)\<close>
  "js_get (JObj kvs) k = (case map_of kvs k of None \<Rightarrow> JUndefined | Some v \<Rightarrow> v)"
| "js_get v k = JUndefined"

definition hex_char :: "nat \<Rightarrow> char" where
  "hex_char n = (if n < 10 then char_of (48 + n) else char_of (87 + n))"

definition json_escape :: "char \<Rightarrow> string" where
  \<comment> \<open>\<^verbatim>\<open>JSON.stringify\<close> on one character of a string.\<close>
  "json_escape c =
     (let n = (of_char c :: nat) in
      if c = CHR 0x22 then [CHR 0x5C, CHR 0x22]
      else if c = CHR 0x5C then [CHR 0x5C, CHR 0x5C]
      else if c = CHR 0x08 then [CHR 0x5C, CHR ''b'']
      else if c = CHR 0x0C then [CHR 0x5C, CHR ''f'']
      else if c = CHR 0x0A then [CHR 0x5C, CHR ''n'']
      else if c = CHR 0x0D then [CHR 0x5C, CHR ''r'']
      else if c = CHR 0x09 then [CHR 0x5C, CHR ''t'']
      else if n < 32 then [CHR 0x5C, CHR ''u'', CHR ''0'', CHR ''0'', hex_char (n div 16), hex_char (n mod 16)]
      else [c])"

definition json_quote :: "string \<Rightarrow> string" where
  "json_quote s = CHR 0x22 # concat (map json_escape s) @ [CHR 0x22]"

fun traverse :: "('a \<Rightarrow> 'e + 'b) \<Rightarrow> 'a list \<Rightarrow> 'e + 'b list" where
  \<comment> \<open>\<^verbatim>\<open>xs.map(f)\<close> for a callback that can throw: the first throw ends the map.\<close>
  "traverse f [] = Inr []"
| "traverse f (x # xs) =
     (case f x of
        Inl e \<Rightarrow> Inl e
      | Inr y \<Rightarrow> (case traverse f xs of Inl e \<Rightarrow> Inl e | Inr ys \<Rightarrow> Inr (y # ys)))"

lemma traverse_cong [fundef_cong]:
  "xs = ys \<Longrightarrow> (\<And>x. x \<in> set ys \<Longrightarrow> f x = g x) \<Longrightarrow> traverse f xs = traverse g ys"
proof (induction ys arbitrary: xs)
  case Nil
  then show ?case by simp
next
  case (Cons y ys)
  then have "f y = g y" and "traverse f ys = traverse g ys" by simp_all
  with Cons.prems(1) show ?case by (simp split: sum.splits)
qed

definition bigint_error :: js_error where
  \<comment> \<open>The TypeError of \<^verbatim>\<open>JSON.stringify\<close> on a big integer.\<close>
  "bigint_error = Error ''Do not know how to serialize a BigInt''"

fun JSON_stringify :: "jsval \<Rightarrow> js_error + string option" where
  \<comment> \<open>\<open>Inr None\<close> is the result \<open>undefined\<close>. An \<open>undefined\<close> member of an object is left
      out; an \<open>undefined\<close> element of an array is written \<open>null\<close>; a big integer anywhere
      in the value throws.\<close>
  "JSON_stringify JUndefined = Inr None"
| "JSON_stringify JNull = Inr (Some ''null'')"
| "JSON_stringify (JBool b) = Inr (Some (if b then ''true'' else ''false''))"
| "JSON_stringify (JNum x) = Inr (Some (num_json x))"
| "JSON_stringify (JBigInt n) = Inl bigint_error"
| "JSON_stringify (JStr s) = Inr (Some (json_quote s))"
| "JSON_stringify (JArr xs) =
     (case traverse (\<lambda>v. case JSON_stringify v of
                             Inl e \<Rightarrow> Inl e
                           | Inr None \<Rightarrow> Inr ''null''
                           | Inr (Some t) \<Rightarrow> Inr t) xs of
        Inl e \<Rightarrow> Inl e
      | Inr ts \<Rightarrow> Inr (Some (''['' @ join '','' ts @ '']'')))"
| "JSON_stringify (JObj kvs) =
     (case traverse (\<lambda>kv. case JSON_stringify (snd kv) of
                              Inl e \<Rightarrow> Inl e
                            | Inr None \<Rightarrow> Inr []
                            | Inr (Some t) \<Rightarrow> Inr [json_quote (fst kv) @ '':'' @ t]) kvs of
        Inl e \<Rightarrow> Inl e
      | Inr tss \<Rightarrow> Inr (Some (''{'' @ join '','' (concat tss) @ ''}'')))"

subsection \<open>Objects that the code fills\<close>

text \<open>
  An object made by \<^verbatim>\<open>{}\<close> and filled by assignments \<^verbatim>\<open>obj[k] = v\<close> lists its own keys
  with the array indices first, in ascending order, and the other keys after them in the
  order in which they were first assigned. An array index is the decimal numeral of an
  integer from 0 to \<open>2^32 - 2\<close>. An assignment to the key \<open>__proto__\<close> adds no member: it
  sets the prototype when the value is an object and does nothing otherwise.
\<close>

definition is_digit :: "char \<Rightarrow> bool" where
  "is_digit c = (48 \<le> (of_char c :: nat) \<and> (of_char c :: nat) \<le> 57)"

definition digits_value :: "string \<Rightarrow> int" where
  "digits_value k = foldl (\<lambda>n c. 10 * n + ((of_char c :: int) - 48)) 0 k"

definition array_index :: "string \<Rightarrow> int option" where
  "array_index k =
     (if k \<noteq> [] \<and> list_all is_digit k \<and> (length k = 1 \<or> hd k \<noteq> CHR ''0'')
         \<and> length k \<le> 10 \<and> digits_value k \<le> 4294967294
      then Some (digits_value k) else None)"

fun insert_index :: "int \<Rightarrow> string \<Rightarrow> 'v \<Rightarrow> (string \<times> 'v) list \<Rightarrow> (string \<times> 'v) list" where
  \<comment> \<open>A new member with the array index \<open>i\<close>: after the members with a smaller index.\<close>
  "insert_index i k v [] = [(k, v)]"
| "insert_index i k v (p # ps) =
     (case array_index (fst p) of
        None \<Rightarrow> (k, v) # p # ps
      | Some j \<Rightarrow> if j < i then p # insert_index i k v ps else (k, v) # p # ps)"

definition obj_set :: "string \<Rightarrow> 'v \<Rightarrow> (string \<times> 'v) list \<Rightarrow> (string \<times> 'v) list" where
  \<comment> \<open>\<^verbatim>\<open>obj[k] = v\<close> on the own members, for a key other than \<open>__proto__\<close>: a key already
      there keeps its place and takes the new value.\<close>
  "obj_set k v ms =
     (if k \<in> set (map fst ms) then map (\<lambda>p. if fst p = k then (k, v) else p) ms
      else (case array_index k of
              None \<Rightarrow> ms @ [(k, v)]
            | Some i \<Rightarrow> insert_index i k v ms))"

definition prop_set :: "string \<Rightarrow> string \<Rightarrow> (string \<times> string) list \<Rightarrow> (string \<times> string) list" where
  \<comment> \<open>\<^verbatim>\<open>obj[k] = v\<close> for a string \<open>v\<close>: under the key \<open>__proto__\<close> nothing happens.\<close>
  "prop_set k v ms = (if k = ''__proto__'' then ms else obj_set k v ms)"

record 'v js_object =
  members :: "(string \<times> 'v) list"
  prototype :: "'v option"

definition empty_object :: "'v js_object" where
  \<comment> \<open>\<^verbatim>\<open>{}\<close>; \<open>None\<close> is the prototype every object literal starts with.\<close>
  "empty_object = \<lparr>members = [], prototype = None\<rparr>"

definition obj_assign :: "string \<Rightarrow> 'v \<Rightarrow> 'v js_object \<Rightarrow> 'v js_object" where
  \<comment> \<open>\<^verbatim>\<open>obj[k] = v\<close> for an object \<open>v\<close>.\<close>
  "obj_assign k v ob =
     (if k = ''__proto__'' then ob\<lparr>prototype := Some v\<rparr>
      else ob\<lparr>members := obj_set k v (members ob)\<rparr>)"

section \<open>The chat transport and the graph store\<close>

text \<open>
  The chat client and, behind the connection object \<^verbatim>\<open>neo4jConnection\<close>, the driver and
  the store are collaborators. A world holds the reply of the chat client and the two
  methods of the connection that the code calls, \<^verbatim>\<open>isConnected\<close> and \<^verbatim>\<open>runQuery\<close>, as
  functions of the history of calls made so far, which covers every deterministic
  behaviour of theirs, and the history itself: each message list sent and each query run
  is appended to it. A call to the chat client returns the model's reply; a call to
  \<^verbatim>\<open>runQuery\<close> returns a result or throws.
\<close>

datatype role = System | User | Assistant

record chat_message =
  content :: string
  role :: role
  stage :: string

type_synonym neo_record = "(string \<times> jsval) list"
  \<comment> \<open>A record of the driver: its keys in column order, each with its value.\<close>

record query_summary =
  query :: string
  parameters :: jsval
  counters :: jsval

record with_summary =
  summary :: query_summary

record CypherResult = with_summary +
  records :: "neo_record list"

record FormattedCypherResult = with_summary +
  columns :: "string list"
  rows :: "jsval list list"

datatype event =
    Sent "chat_message list"      \<comment> \<open>\<^verbatim>\<open>chatAPI.sendMessages(messages)\<close>\<close>
  | Queried string jsval          \<comment> \<open>\<^verbatim>\<open>neo4jConnection.runQuery(query, params)\<close>\<close>

record world =
  isConnected :: "event list \<Rightarrow> bool"
  runQuery :: "event list \<Rightarrow> string \<Rightarrow> jsval \<Rightarrow> js_error + CypherResult"
  reply :: "event list \<Rightarrow> chat_message list \<Rightarrow> chat_message"
  history :: "event list"

definition sendMessages :: "world \<Rightarrow> chat_message list \<Rightarrow> chat_message \<times> world" where
  "sendMessages w ms = (reply w (history w) ms, w\<lparr>history := history w @ [Sent ms]\<rparr>)"

definition record_get :: "neo_record \<Rightarrow> string \<Rightarrow> js_error + jsval" where
  \<comment> \<open>\<^verbatim>\<open>record.get(key)\<close> of the driver: a key the record does not have is an error
      (the driver's message, abridged).\<close>
  "record_get r k =
     (case map_of r k of
        None \<Rightarrow> Inl (Error (''This record has no field with key '' @ k))
      | Some v \<Rightarrow> Inr v)"

subsection \<open>runCypherQuery, formatCypherResult, convertToSparqlResultsFormat\<close>

definition runCypherQuery :: "world \<Rightarrow> string \<Rightarrow> jsval \<Rightarrow> (js_error + CypherResult) \<times> world" where
  \<comment> \<open>The result of the driver is copied field by field; an error of the driver is thrown
      again as it is.\<close>
  "runCypherQuery w q params =
     (if \<not> isConnected w (history w) then (Inl (Error ''Not connected to Neo4j''), w)
      else
        (case runQuery w (history w) q params of
           Inl e \<Rightarrow> Inl e
         | Inr result \<Rightarrow>
             Inr \<lparr>summary = \<lparr>query = query (summary result),
                               parameters = parameters (summary result),
                               counters = counters (summary result)\<rparr>,
                  records = records result\<rparr>,
         w\<lparr>history := history w @ [Queried q params]\<rparr>))"

definition formatCypherResult :: "CypherResult \<Rightarrow> js_error + FormattedCypherResult" where
  "formatCypherResult result =
     (if length (records result) = 0 then
        Inr \<lparr>summary = summary result, columns = [], rows = []\<rparr>
      else
        (let cols = map (\<lambda>key. key) (map fst (records result ! 0)) in
           \<comment> \<open>\<^verbatim>\<open>String(key)\<close> of a key that is a string\<close>
         case traverse (\<lambda>record. traverse (\<lambda>column. record_get record column) cols)
                (records result) of
           Inl e \<Rightarrow> Inl e
         | Inr rs \<Rightarrow> Inr \<lparr>summary = summary result, columns = cols, rows = rs\<rparr>))"

record binding =
  btype :: string
  bvalue :: string

record SparqlResultsJsonType =
  vars :: "string list"
  bindings :: "binding js_object list"

definition cell_type :: "jsval \<Rightarrow> string" where
  "cell_type v =
     (if v = JNull \<or> v = JUndefined then ''unknown''
      else if js_typeof v = ''object'' then
        (if js_truthy (js_get v ''_labels'') \<or> js_truthy (js_get v ''_id'')
            \<or> js_truthy (js_get v ''_type'')
         then ''uri'' else ''object'')
      else js_typeof v)"

definition cell_value :: "jsval \<Rightarrow> js_error + string" where
  \<comment> \<open>The formatted value. \<^verbatim>\<open>JSON.stringify\<close> of an array or an object is never
      \<open>undefined\<close>; that branch is there for the shape of the type only.\<close>
  "cell_value v =
     (if v = JNull \<or> v = JUndefined then Inr []
      else if js_typeof v = ''object'' then
        (case JSON_stringify v of
           Inl e \<Rightarrow> Inl e
         | Inr None \<Rightarrow> Inr ''undefined''
         | Inr (Some t) \<Rightarrow> Inr t)
      else Inr (js_string v))"

definition cell_binding :: "jsval \<Rightarrow> js_error + binding" where
  "cell_binding v =
     (case cell_value v of
        Inl e \<Rightarrow> Inl e
      | Inr formattedValue \<Rightarrow> Inr \<lparr>btype = cell_type v, bvalue = formattedValue\<rparr>)"

definition cell_at :: "jsval list \<Rightarrow> nat \<Rightarrow> jsval" where
  \<comment> \<open>\<^verbatim>\<open>row[index]\<close>: a row shorter than the columns reads \<open>undefined\<close>.\<close>
  "cell_at row index = (case nth_opt row index of None \<Rightarrow> JUndefined | Some x \<Rightarrow> x)"

definition row_binding :: "string list \<Rightarrow> jsval list \<Rightarrow> js_error + binding js_object" where
  \<comment> \<open>The \<^verbatim>\<open>forEach\<close> over the columns, filling the object \<open>binding\<close>; a throw ends it.\<close>
  "row_binding cols row =
     foldl (\<lambda>acc (column, index).
              (case acc of
                 Inl e \<Rightarrow> Inl e
               | Inr b \<Rightarrow>
                   (case cell_binding (cell_at row index) of
                      Inl e \<Rightarrow> Inl e
                    | Inr c \<Rightarrow> Inr (obj_assign column c b))))
       (Inr empty_object) (zip cols [0 ..< length cols])"

definition convertToSparqlResultsFormat ::
  "FormattedCypherResult \<Rightarrow> js_error + SparqlResultsJsonType" where
  "convertToSparqlResultsFormat formattedResult =
     (case traverse (row_binding (columns formattedResult)) (rows formattedResult) of
        Inl e \<Rightarrow> Inl e
      | Inr bs \<Rightarrow> Inr \<lparr>vars = columns formattedResult, bindings = bs\<rparr>)"

section \<open>The query-building workflow\<close>

definition QUERY_BUILDING_MAX_LOOPS :: nat where
  "QUERY_BUILDING_MAX_LOOPS = 20"

definition ENTITY_SEARCH_PREFIX :: string where
  "ENTITY_SEARCH_PREFIX = ''Entity Search:''"

definition PROPERTIES_SEARCH_PREFIX :: string where
  "PROPERTIES_SEARCH_PREFIX = ''Properties Search:''"

definition TAIL_SEARCH_PREFIX :: string where
  "TAIL_SEARCH_PREFIX = ''Tail Search:''"

definition KG_NAME :: string where
  "KG_NAME = ''Neo4j Knowledge Graph''"

definition INITIAL_QUERY_BUILDING_SYSTEM_MESSAGE :: string where
  \<open>INITIAL_QUERY_BUILDING_SYSTEM_MESSAGE =
     join [CHR 0x0A]
      [''You are an AI assistant that helps construct Cypher queries for a Neo4j knowledge graph.'',
       '''',
       ''The knowledge graph contains documents that have been processed into chunks and entities.'',
       ''Schema:'',
       ''- (Document) nodes represent uploaded documents'',
       ''- (Chunk) nodes represent pieces of those documents'',
       ''- (__Entity__) nodes represent entities extracted from the documents'',
       ''- Relationships: '',
       ''  - (Chunk)-[:PART_OF]->(Document)'',
       ''  - (__Entity__)-[:MENTIONED_IN]->(Chunk)'',
       ''  - (__Entity__)-[:RELATED_TO]->(__Entity__)'',
       '''',
       ''To build queries, you can:'',
       ''1. Search for entities: "Entity Search: <search term>"'',
       ''2. Search for properties of an entity: "Properties Search: <entity_id>"'',
       ''3. Find entities related to another entity: "Tail Search: <entity_id>, <relationship_type>"'',
       '''',
       ''When you're ready to stop searching and construct the query, respond with "STOP".'',
       '''']\<close>

definition QUERY_BUILDING_SYSTEM_MESSAGE :: string where
  \<open>QUERY_BUILDING_SYSTEM_MESSAGE =
     ''Now construct a Cypher query that answers the user's question using the entity and relationship IDs you've found. The query should be syntactically correct Neo4j Cypher.''\<close>

definition ENTITY_SEARCH_QUERY :: string where
  \<comment> \<open>The query text of \<^verbatim>\<open>handleEntitySearch\<close>, line breaks included.\<close>
  \<open>ENTITY_SEARCH_QUERY =
     join [CHR 0x0A]
      ['''',
       ''      MATCH (e:__Entity__)'',
       ''      WHERE e.id CONTAINS $searchTerm OR e.description CONTAINS $searchTerm'',
       ''      RETURN e.id AS entityId, e.description AS description'',
       ''      LIMIT 5'',
       ''    '']\<close>

definition PROPERTIES_SEARCH_QUERY :: string where
  \<open>PROPERTIES_SEARCH_QUERY =
     join [CHR 0x0A]
      ['''',
       ''      MATCH (e:__Entity__ {id: $entityId})'',
       ''      RETURN properties(e) AS properties'',
       ''      LIMIT 1'',
       ''    '']\<close>

definition RELATED_QUERY_HEAD :: string where
  \<comment> \<open>The query text of \<^verbatim>\<open>handleRelatedEntitiesSearch\<close> up to the place of the relationship type.\<close>
  \<open>RELATED_QUERY_HEAD =
     join [CHR 0x0A]
      ['''',
       ''      MATCH (e1:__Entity__ {id: $entityId})-[r:'']\<close>

definition RELATED_QUERY_TAIL :: string where
  \<comment> \<open>The same query text after the relationship type.\<close>
  \<open>RELATED_QUERY_TAIL =
     join [CHR 0x0A]
      ['']->(e2:__Entity__)'',
       ''      RETURN e2.id AS relatedEntityId, e2.description AS description'',
       ''      LIMIT 5'',
       ''    '']\<close>

definition system_message :: "string \<Rightarrow> string \<Rightarrow> chat_message" where
  "system_message text stg = \<lparr>content = text, role = System, stage = stg\<rparr>"

definition error_message :: "js_error \<Rightarrow> string" where
  \<comment> \<open>\<^verbatim>\<open>error instanceof Error ? error.message : 'Unknown error'\<close>\<close>
  "error_message e = (case e of Error m \<Rightarrow> m | Thrown v \<Rightarrow> ''Unknown error'')"

definition entity_line :: "string \<Rightarrow> neo_record \<Rightarrow> js_error + string" where
  \<comment> \<open>One line of a search result: the identifier under the given key, then the
      description or \<open>No description\<close>.\<close>
  "entity_line idKey record =
     (case record_get record idKey of
        Inl e \<Rightarrow> Inl e
      | Inr entityId \<Rightarrow>
          (case record_get record ''description'' of
             Inl e \<Rightarrow> Inl e
           | Inr description \<Rightarrow>
               Inr (js_string entityId @ '': '' @
                    (if js_truthy description then js_string description
                     else ''No description''))))"

definition handleEntitySearch :: "world \<Rightarrow> string \<Rightarrow> chat_message \<times> world" where
  \<open>handleEntitySearch w searchTerm =
     (case runCypherQuery w ENTITY_SEARCH_QUERY (JObj [(''searchTerm'', JStr searchTerm)]) of
        (Inl error, w1) \<Rightarrow>
          sendMessages w1
            [system_message (''Error searching for entities: '' @ error_message error)
               ''Entity Fuzzy Searching'']
      | (Inr result, w1) \<Rightarrow>
          if length (records result) = 0 then
            sendMessages w1
              [system_message
                 (KG_NAME @ '' did not find any entities matching "'' @ searchTerm
                   @ ''". You may need to rephrase or simplify your entity search'')
                 ''Entity Fuzzy Searching'']
          else
            (case traverse (entity_line ''entityId'') (records result) of
               Inl error \<Rightarrow>
                 sendMessages w1
                   [system_message (''Error searching for entities: '' @ error_message error)
                      ''Entity Fuzzy Searching'']
             | Inr entityLines \<Rightarrow>
                 sendMessages w1
                   [system_message
                      (''Found entities in '' @ KG_NAME @ '':'' @ [CHR 0x0A]
                        @ join [CHR 0x0A] entityLines)
                      ''Entity Fuzzy Searching'']))\<close>

fun Object_entries :: "jsval \<Rightarrow> js_error + (string \<times> jsval) list" where
  \<comment> \<open>\<^verbatim>\<open>Object.entries(v)\<close>: the members of an object, the indexed elements of an array or
      a string, nothing for a number, a big integer or a boolean, a TypeError for \<open>null\<close>
      and \<open>undefined\<close>.\<close>
  "Object_entries (JObj kvs) = Inr kvs"
| "Object_entries (JArr xs) = Inr (zip (map show_nat [0 ..< length xs]) xs)"
| "Object_entries (JStr s) = Inr (zip (map show_nat [0 ..< length s]) (map (\<lambda>c. JStr [c]) s))"
| "Object_entries (JNum x) = Inr []"
| "Object_entries (JBigInt n) = Inr []"
| "Object_entries (JBool b) = Inr []"
| "Object_entries JNull = Inl (Error ''Cannot convert undefined or null to object'')"
| "Object_entries JUndefined = Inl (Error ''Cannot convert undefined or null to object'')"

definition handlePropertiesSearch :: "world \<Rightarrow> string \<Rightarrow> chat_message \<times> world" where
  \<open>handlePropertiesSearch w entityId =
     (case runCypherQuery w PROPERTIES_SEARCH_QUERY (JObj [(''entityId'', JStr entityId)]) of
        (Inl error, w1) \<Rightarrow>
          sendMessages w1
            [system_message (''Error getting properties for entity: '' @ error_message error)
               ''Property Search'']
      | (Inr result, w1) \<Rightarrow>
          if length (records result) = 0 then
            sendMessages w1
              [system_message
                 (KG_NAME @ '' did not find any entity with ID "'' @ entityId
                   @ ''". Are you sure that entity exists?'')
                 ''Property Search'']
          else
            (case (case record_get (records result ! 0) ''properties'' of
                     Inl e \<Rightarrow> Inl e
                   | Inr properties \<Rightarrow> Object_entries properties) of
               Inl error \<Rightarrow>
                 sendMessages w1
                   [system_message
                      (''Error getting properties for entity: '' @ error_message error)
                      ''Property Search'']
             | Inr entries \<Rightarrow>
                 sendMessages w1
                   [system_message
                      (''Properties for entity '' @ entityId @ '':'' @ [CHR 0x0A]
                        @ join [CHR 0x0A]
                            (map (\<lambda>kv. fst kv @ '': '' @ js_string (snd kv)) entries))
                      ''Property Search'']))\<close>

definition related_query :: "string \<Rightarrow> string" where
  \<comment> \<open>The template literal of the query: the relationship type is put into the text.\<close>
  "related_query relationshipType = RELATED_QUERY_HEAD @ relationshipType @ RELATED_QUERY_TAIL"

definition format_error_message :: chat_message where
  "format_error_message =
     system_message
       ''Your response did not follow the correct format. Please provide: Entity ID, Relationship Type''
       ''Tail Search''"

definition handleRelatedEntitiesSearch :: "world \<Rightarrow> string \<Rightarrow> chat_message \<times> world" where
  \<open>handleRelatedEntitiesSearch w text =
     (let split = split_str '','' text in
      if length split \<noteq> 2 then sendMessages w [format_error_message]
      else
        (let entityId = trim (split ! 0); relationshipType = trim (split ! 1) in
         case runCypherQuery w (related_query relationshipType)
                (JObj [(''entityId'', JStr entityId)]) of
           (Inl error, w1) \<Rightarrow>
             sendMessages w1
               [system_message (''Error finding related entities: '' @ error_message error)
                  ''Tail Search'']
         | (Inr result, w1) \<Rightarrow>
             if length (records result) = 0 then
               sendMessages w1
                 [system_message
                    (KG_NAME @ '' did not find any entities connected to "'' @ entityId
                      @ ''" via "'' @ relationshipType
                      @ ''" relationship. Are you sure that entity has that relationship?'')
                    ''Tail Search'']
             else
               (case traverse (entity_line ''relatedEntityId'') (records result) of
                  Inl error \<Rightarrow>
                    sendMessages w1
                      [system_message
                         (''Error finding related entities: '' @ error_message error)
                         ''Tail Search'']
                | Inr relatedLines \<Rightarrow>
                    sendMessages w1
                      [system_message
                         (''Related entities via '' @ relationshipType @ '':'' @ [CHR 0x0A]
                           @ join [CHR 0x0A] relatedLines)
                         ''Tail Search''])))\<close>

datatype SearchAction =
    Stop
  | EntitySearch string             \<comment> \<open>the search term handed to \<open>handleEntitySearch\<close>\<close>
  | PropertiesSearch string         \<comment> \<open>the entity id handed to \<open>handlePropertiesSearch\<close>\<close>
  | RelatedEntitiesSearch string    \<comment> \<open>the text handed to \<open>handleRelatedEntitiesSearch\<close>\<close>
  | Invalid

definition classify :: "string \<Rightarrow> SearchAction" where
  \<comment> \<open>The chain of tests at the head of the loop body, on the content of the reply, with
      the argument each branch computes for its handler. In the two \<open>split\<close> branches the
      marker occurs in the text, so the split has an element at index 1
      (lemma \<open>split_str_second\<close>).\<close>
  "classify replyContent =
     (let responseText = trim replyContent in
      if toUpperCase responseText = ''STOP'' then Stop
      else if includes_str ENTITY_SEARCH_PREFIX responseText then
        EntitySearch (trim (split_str ENTITY_SEARCH_PREFIX responseText ! 1))
      else if includes_str PROPERTIES_SEARCH_PREFIX responseText then
        PropertiesSearch (trim (split_str PROPERTIES_SEARCH_PREFIX responseText ! 1))
      else if startsWith TAIL_SEARCH_PREFIX responseText then
        RelatedEntitiesSearch (trim (replace_first TAIL_SEARCH_PREFIX [] responseText))
      else Invalid)"

definition invalid_response_message :: chat_message where
  "invalid_response_message =
     system_message
       (''That was an invalid response. If you are done, just respond with STOP. Follow the specified format. ''
         @ INITIAL_QUERY_BUILDING_SYSTEM_MESSAGE)
       ''Query Building''"

function queryBuildingLoop :: "nat \<Rightarrow> chat_message \<Rightarrow> world \<Rightarrow> nat \<times> chat_message \<times> world" where
  \<comment> \<open>The \<open>while\<close> loop with its three variables: the counter, the last reply and the
      world. The result is their state when the loop is left.\<close>
  "queryBuildingLoop NO_FOREVER_LOOP llmResponse w =
     (if NO_FOREVER_LOOP < QUERY_BUILDING_MAX_LOOPS then
        (case classify (content llmResponse) of
           Stop \<Rightarrow> (NO_FOREVER_LOOP + 1, llmResponse, w)
         | EntitySearch searchTerm \<Rightarrow>
             (case handleEntitySearch w searchTerm of
                (r, w') \<Rightarrow> queryBuildingLoop (NO_FOREVER_LOOP + 1) r w')
         | PropertiesSearch entityId \<Rightarrow>
             (case handlePropertiesSearch w entityId of
                (r, w') \<Rightarrow> queryBuildingLoop (NO_FOREVER_LOOP + 1) r w')
         | RelatedEntitiesSearch text \<Rightarrow>
             (case handleRelatedEntitiesSearch w text of
                (r, w') \<Rightarrow> queryBuildingLoop (NO_FOREVER_LOOP + 1) r w')
         | Invalid \<Rightarrow>
             (case sendMessages w [invalid_response_message] of
                (r, w') \<Rightarrow> queryBuildingLoop (NO_FOREVER_LOOP + 1) r w'))
      else (NO_FOREVER_LOOP, llmResponse, w))"
  by pat_completeness auto
termination
  by (relation "measure (\<lambda>(n, r, w). QUERY_BUILDING_MAX_LOOPS - n)") auto

declare queryBuildingLoop.simps [simp del]

definition initial_message :: chat_message where
  "initial_message = system_message INITIAL_QUERY_BUILDING_SYSTEM_MESSAGE ''Query Building''"

definition final_message :: "string \<Rightarrow> chat_message" where
  "final_message text =
     system_message
       (QUERY_BUILDING_SYSTEM_MESSAGE
         @ '' Now construct a query that answers the user'' @ [CHR 0x27]
         @ ''s question: '' @ text)
       ''Query Building''"

definition queryBuildingWorkflow :: "world \<Rightarrow> string \<Rightarrow> chat_message \<times> world" where
  "queryBuildingWorkflow w text =
     (case sendMessages w [initial_message] of
        (llmResponse, w1) \<Rightarrow>
          (case queryBuildingLoop 0 llmResponse w1 of
             (n, lastResponse, w2) \<Rightarrow> sendMessages w2 [final_message text]))"

section \<open>Regular expressions\<close>

text \<open>
  The regular expressions of \<open>parseCypherQuery\<close> as syntax trees, with a backtracking
  matcher. The matcher returns every way to match at the head of the text, in the order in
  which a backtracking engine tries them (a quantifier takes as much as it can first, an
  alternative is tried left to right), each as the rest of the text and the capture
  groups. The first entry is the match the engine reports.
\<close>

datatype cls =
    WordChar        \<comment> \<open>\<^verbatim>\<open>[a-zA-Z0-9_]\<close>\<close>
  | LabelChar       \<comment> \<open>\<^verbatim>\<open>[a-zA-Z0-9_:]\<close>\<close>
  | NotBrace        \<comment> \<open>\<^verbatim>\<open>[^}]\<close>\<close>
  | SpaceChar       \<comment> \<open>\<^verbatim>\<open>\s\<close>\<close>
  | AnyChar         \<comment> \<open>\<^verbatim>\<open>.\<close>: every character but a line terminator\<close>
  | QuoteChar       \<comment> \<open>\<^verbatim>\<open>["']\<close>\<close>

definition is_word :: "char \<Rightarrow> bool" where
  "is_word c =
     (let n = (of_char c :: nat) in
      (97 \<le> n \<and> n \<le> 122) \<or> (65 \<le> n \<and> n \<le> 90) \<or> (48 \<le> n \<and> n \<le> 57) \<or> c = CHR ''_'')"

fun in_cls :: "cls \<Rightarrow> char \<Rightarrow> bool" where
  "in_cls WordChar c = is_word c"
| "in_cls LabelChar c = (is_word c \<or> c = CHR '':'')"
| "in_cls NotBrace c = (c \<noteq> CHR ''}'')"
| "in_cls SpaceChar c = is_space c"
| "in_cls AnyChar c = (c \<noteq> CHR 0x0A \<and> c \<noteq> CHR 0x0D)"
| "in_cls QuoteChar c = (c = CHR 0x22 \<or> c = CHR 0x27)"

datatype rx =
    Eps                   \<comment> \<open>the empty expression\<close>
  | Lit string            \<comment> \<open>the characters themselves\<close>
  | One cls               \<comment> \<open>one character of a class\<close>
  | Many cls              \<comment> \<open>\<^verbatim>\<open>c*\<close>, greedy\<close>
  | Seq rx rx
  | Alt rx rx             \<comment> \<open>\<^verbatim>\<open>a|b\<close>\<close>
  | Opt rx                \<comment> \<open>\<^verbatim>\<open>a?\<close>, greedy\<close>
  | Grp nat rx            \<comment> \<open>a capture group with its number\<close>
  | Eos                   \<comment> \<open>\<^verbatim>\<open>$\<close>\<close>

type_synonym caps = "nat \<Rightarrow> string option"

fun many_match :: "cls \<Rightarrow> string \<Rightarrow> string list" where
  \<comment> \<open>The rests after \<^verbatim>\<open>c*\<close>, the longest run first.\<close>
  "many_match k [] = [[]]"
| "many_match k (x # xs) = (if in_cls k x then many_match k xs else []) @ [x # xs]"

fun rx_match :: "rx \<Rightarrow> string \<Rightarrow> caps \<Rightarrow> (string \<times> caps) list" where
  "rx_match Eps s c = [(s, c)]"
| "rx_match (Lit l) s c = (if prefix l s then [(drop (length l) s, c)] else [])"
| "rx_match (One k) s c =
     (case s of [] \<Rightarrow> [] | x # xs \<Rightarrow> if in_cls k x then [(xs, c)] else [])"
| "rx_match (Many k) s c = map (\<lambda>r. (r, c)) (many_match k s)"
| "rx_match (Seq a b) s c = concat (map (\<lambda>(s', c'). rx_match b s' c') (rx_match a s c))"
| "rx_match (Alt a b) s c = rx_match a s c @ rx_match b s c"
| "rx_match (Opt a) s c = rx_match a s c @ [(s, c)]"
| "rx_match (Grp n a) s c =
     map (\<lambda>(s', c'). (s', c'(n \<mapsto> take (length s - length s') s))) (rx_match a s c)"
| "rx_match Eos s c = (if s = [] then [(s, c)] else [])"

fun seqs :: "rx list \<Rightarrow> rx" where
  "seqs [] = Eps"
| "seqs (r # rs) = Seq r (seqs rs)"

definition Many1 :: "cls \<Rightarrow> rx" where
  \<comment> \<open>\<^verbatim>\<open>c+\<close>, greedy\<close>
  "Many1 k = Seq (One k) (Many k)"

definition no_caps :: caps where
  "no_caps = (\<lambda>n. None)"

definition rx_first :: "rx \<Rightarrow> string \<Rightarrow> (string \<times> caps) option" where
  \<comment> \<open>The match at the head of the text, if there is one.\<close>
  "rx_first r s = (case rx_match r s no_caps of [] \<Rightarrow> None | m # ms \<Rightarrow> Some m)"

fun rx_search :: "rx \<Rightarrow> string \<Rightarrow> (string \<times> caps) option" where
  \<comment> \<open>The leftmost match at or after the head of the text: the rest of the text after it
      and its captures.\<close>
  "rx_search r [] = rx_first r []"
| "rx_search r (x # xs) =
     (case rx_first r (x # xs) of None \<Rightarrow> rx_search r xs | Some m \<Rightarrow> Some m)"

function rx_exec_all :: "rx \<Rightarrow> string \<Rightarrow> caps list" where
  \<comment> \<open>The loop \<^verbatim>\<open>while ((match = pattern.exec(text)) !== null)\<close> of a global pattern: the
      captures of the successive matches, each search starting where the last match
      ended. A match that consumes nothing would leave the loop of the source where it is;
      no pattern used here can match the empty text (lemmas \<open>nodePattern_consumes\<close>,
      \<open>relPattern_consumes\<close>), so the last branch is never taken.\<close>
  "rx_exec_all r s =
     (case rx_search r s of
        None \<Rightarrow> []
      | Some (rest, c) \<Rightarrow>
          if length rest < length s then c # rx_exec_all r rest else [c])"
  by pat_completeness auto
termination
  by (relation "measure (\<lambda>(r, s). length s)") auto

declare rx_exec_all.simps [simp del]

function rx_replace_all :: "rx \<Rightarrow> string \<Rightarrow> string \<Rightarrow> string" where
  \<comment> \<open>\<^verbatim>\<open>text.replace(pattern, rep)\<close> for a global pattern and a replacement without \<^verbatim>\<open>$\<close>:
      matches are replaced from left to right; after an empty match one character is
      copied.\<close>
  "rx_replace_all r rep s =
     (case rx_first r s of
        None \<Rightarrow> (case s of [] \<Rightarrow> [] | x # xs \<Rightarrow> x # rx_replace_all r rep xs)
      | Some (rest, c) \<Rightarrow>
          if length rest < length s then rep @ rx_replace_all r rep rest
          else (case s of [] \<Rightarrow> rep | x # xs \<Rightarrow> rep @ x # rx_replace_all r rep xs))"
  by pat_completeness auto
termination
  by (relation "measure (\<lambda>(r, rep, s). length s)") auto

declare rx_replace_all.simps [simp del]

section \<open>parseCypherQuery\<close>

record Neo4jNode =
  variable :: string
  labels :: "string list"
  properties :: "(string \<times> string) list option"

text \<open>
  The fields of a relationship carry the prefix \<open>rel\<close> where a node has a field of the
  same name. A property object is its own members in the order in which the engine lists
  them; \<open>None\<close> is \<open>undefined\<close>.
\<close>

record Neo4jRelationship =
  rel_variable :: "string option"
  rel_type :: string
  source :: string
  target :: string
  rel_properties :: "(string \<times> string) list option"

record GraphPattern =
  nodes :: "Neo4jNode list"
  relationships :: "Neo4jRelationship list"

definition whitespacePattern :: rx where
  \<comment> \<open>\<^verbatim>\<open>/\s+/g\<close>\<close>
  "whitespacePattern = Many1 SpaceChar"

definition commentPattern :: rx where
  \<comment> \<open>\<^verbatim>\<open>/\/\/.*/g\<close>\<close>
  "commentPattern = seqs [Lit ''//'', Many AnyChar]"

definition quotedPattern :: rx where
  \<comment> \<open>\<^verbatim>\<open>/^["'](.*)["']$/\<close>, matched at the head of the text\<close>
  "quotedPattern = seqs [One QuoteChar, Grp 1 (Many AnyChar), One QuoteChar, Eos]"

definition nodePattern :: rx where
  \<comment> \<open>\<^verbatim>\<open>/\(([a-zA-Z0-9_]+)(?::([a-zA-Z0-9_:]+))?(?:\s*\{([^}]*)\})?\)/g\<close>\<close>
  "nodePattern =
     seqs [Lit ''('', Grp 1 (Many1 WordChar),
           Opt (seqs [Lit '':'', Grp 2 (Many1 LabelChar)]),
           Opt (seqs [Many SpaceChar, Lit ''{'', Grp 3 (Many NotBrace), Lit ''}'']),
           Lit '')'']"

definition relPattern :: rx where
  \<comment> \<open>\<^verbatim>\<open>/\(([a-zA-Z0-9_]+)\)(?:-\[(?:([a-zA-Z0-9_]+))?(?::([a-zA-Z0-9_]+))?(?:\s*\{([^}]*)\})?\]->|\-\-\>|\-\-|\-\>|\-)\(([a-zA-Z0-9_]+)\)/g\<close>\<close>
  "relPattern =
     seqs [Lit ''('', Grp 1 (Many1 WordChar), Lit '')'',
           Alt (seqs [Lit ''-['',
                      Opt (Grp 2 (Many1 WordChar)),
                      Opt (seqs [Lit '':'', Grp 3 (Many1 WordChar)]),
                      Opt (seqs [Many SpaceChar, Lit ''{'', Grp 4 (Many NotBrace), Lit ''}'']),
                      Lit '']->''])
            (Alt (Lit ''-->'') (Alt (Lit ''--'') (Alt (Lit ''->'') (Lit ''-'')))),
           Lit ''('', Grp 5 (Many1 WordChar), Lit '')'']"

definition grp :: "caps \<Rightarrow> nat \<Rightarrow> string" where
  \<comment> \<open>\<^verbatim>\<open>match[n] || ''\<close>\<close>
  "grp c n = (case c n of None \<Rightarrow> [] | Some g \<Rightarrow> g)"

definition strip_quotes :: "string \<Rightarrow> string" where
  \<comment> \<open>\<^verbatim>\<open>value.replace(/^["'](.*)["']$/, '$1')\<close>\<close>
  "strip_quotes v = (case rx_first quotedPattern v of None \<Rightarrow> v | Some (rest, c) \<Rightarrow> grp c 1 @ rest)"

definition parse_properties :: "string \<Rightarrow> (string \<times> string) list" where
  \<comment> \<open>The property parsing both loops share: pairs split at commas, key and value at
      colons; a pair without a key or without a value is left out.\<close>
  "parse_properties part =
     (if part = [] then []
      else
        foldl (\<lambda>props pair.
                 (let kv = map trim (split_str '':'' pair) in
                  case (nth_opt kv 0, nth_opt kv 1) of
                    (Some k, Some v) \<Rightarrow>
                      if k \<noteq> [] \<and> v \<noteq> [] then prop_set k (strip_quotes v) props else props
                  | _ \<Rightarrow> props))
          [] (split_str '','' part))"

definition optional_properties :: "(string \<times> string) list \<Rightarrow> (string \<times> string) list option" where
  \<comment> \<open>\<^verbatim>\<open>Object.keys(properties).length > 0 ? properties : undefined\<close>\<close>
  "optional_properties props = (if length props > 0 then Some props else None)"

definition node_step ::
  "Neo4jNode list \<times> (string \<rightharpoonup> Neo4jNode) \<Rightarrow> caps \<Rightarrow> Neo4jNode list \<times> (string \<rightharpoonup> Neo4jNode)" where
  \<comment> \<open>The body of the first loop, on the node list and the node map.\<close>
  "node_step st m =
     (case st of (nodeList, nodeMap) \<Rightarrow>
        (let var = grp m 1; labelsPart = grp m 2; propertiesPart = grp m 3 in
         if nodeMap var \<noteq> None then (nodeList, nodeMap)
         else
           (let lbls = (if labelsPart \<noteq> [] then filter (\<lambda>l. l \<noteq> []) (split_str '':'' labelsPart)
                        else []);
                node = \<lparr>variable = var, labels = lbls,
                        properties = optional_properties (parse_properties propertiesPart)\<rparr>
            in (nodeList @ [node], nodeMap(var \<mapsto> node)))))"

definition placeholder :: "string \<Rightarrow> Neo4jNode" where
  \<comment> \<open>\<^verbatim>\<open>{ variable: v, labels: [] }\<close>\<close>
  "placeholder v = \<lparr>variable = v, labels = [], properties = None\<rparr>"

definition ensure_node ::
  "string \<Rightarrow> Neo4jNode list \<times> (string \<rightharpoonup> Neo4jNode) \<Rightarrow> Neo4jNode list \<times> (string \<rightharpoonup> Neo4jNode)" where
  "ensure_node v st =
     (case st of (nodeList, nodeMap) \<Rightarrow>
        if nodeMap v = None then (nodeList @ [placeholder v], nodeMap(v \<mapsto> placeholder v))
        else (nodeList, nodeMap))"

definition rel_step ::
  "(Neo4jNode list \<times> (string \<rightharpoonup> Neo4jNode)) \<times> Neo4jRelationship list \<Rightarrow> caps
     \<Rightarrow> (Neo4jNode list \<times> (string \<rightharpoonup> Neo4jNode)) \<times> Neo4jRelationship list" where
  \<comment> \<open>The body of the second loop, on the node list, the node map and the relationship
      list.\<close>
  "rel_step st m =
     (case st of (ns, rels) \<Rightarrow>
        (let sourceVar = grp m 1;
             relVar = (if grp m 2 = [] then None else Some (grp m 2));
             relType = grp m 3;
             propsPart = grp m 4;
             targetVar = grp m 5;
             rel = \<lparr>rel_variable = relVar,
                    rel_type = (if relType \<noteq> [] then relType else ''RELATED_TO''),
                    source = sourceVar, target = targetVar,
                    rel_properties = optional_properties (parse_properties propsPart)\<rparr>
         in (ensure_node targetVar (ensure_node sourceVar ns), rels @ [rel])))"

definition normalize_query :: "string \<Rightarrow> string" where
  "normalize_query q =
     trim (rx_replace_all commentPattern [] (rx_replace_all whitespacePattern '' '' q))"

definition parseCypherQuery :: "string \<Rightarrow> GraphPattern" where
  "parseCypherQuery q =
     (let normalizedQuery = normalize_query q;
          declared = foldl node_step ([], Map.empty) (rx_exec_all nodePattern normalizedQuery);
          final = foldl rel_step (declared, []) (rx_exec_all relPattern normalizedQuery)
      in \<lparr>nodes = fst (fst final), relationships = snd final\<rparr>)"

section \<open>Notions used in the properties\<close>

definition same_keys :: "CypherResult \<Rightarrow> bool" where
  \<comment> \<open>Every record of the result has a field for each key of the first record, as the
      records of one query result have.\<close>
  "same_keys result =
     list_all (\<lambda>r. list_all (\<lambda>k. map_of r k \<noteq> None) (map fst (hd (records result)))) (records result)"

fun rx_min :: "rx \<Rightarrow> nat" where
  \<comment> \<open>A lower bound on the number of characters a match consumes.\<close>
  "rx_min Eps = 0"
| "rx_min (Lit l) = length l"
| "rx_min (One k) = 1"
| "rx_min (Many k) = 0"
| "rx_min (Seq a b) = rx_min a + rx_min b"
| "rx_min (Alt a b) = min (rx_min a) (rx_min b)"
| "rx_min (Opt a) = 0"
| "rx_min (Grp n a) = rx_min a"
| "rx_min Eos = 0"

definition declared_variables :: "string \<Rightarrow> string list" where
  \<comment> \<open>The variables of the node patterns the first loop finds in the query.\<close>
  "declared_variables q = map (\<lambda>m. grp m 1) (rx_exec_all nodePattern (normalize_query q))"

definition node_inv :: "Neo4jNode list \<times> (string \<rightharpoonup> Neo4jNode) \<Rightarrow> bool" where
  \<comment> \<open>The node map holds exactly the variables of the node list.\<close>
  "node_inv st = (dom (snd st) = variable ` set (fst st))"

definition rel_inv ::
  "Neo4jNode list \<Rightarrow> (Neo4jNode list \<times> (string \<rightharpoonup> Neo4jNode)) \<times> Neo4jRelationship list \<Rightarrow> bool" where
  \<comment> \<open>The invariant of the second loop, for the node list \<open>d\<close> the first loop left.\<close>
  "rel_inv d st =
     (node_inv (fst st)
      \<and> list_all (\<lambda>r. source r \<in> dom (snd (fst st)) \<and> target r \<in> dom (snd (fst st))) (snd st)
      \<and> list_all (\<lambda>n. n \<in> set d \<or> n = placeholder (variable n)) (fst (fst st)))"

fun is_Sent :: "event \<Rightarrow> bool" where
  "is_Sent (Sent ms) = True"
| "is_Sent (Queried q params) = False"

definition sends :: "event list \<Rightarrow> nat" where
  \<comment> \<open>The number of calls to the chat client in a history.\<close>
  "sends evs = length (filter is_Sent evs)"

definition queries :: "event list \<Rightarrow> nat" where
  \<comment> \<open>The number of queries run in a history.\<close>
  "queries evs = length (filter (\<lambda>e. \<not> is_Sent e) evs)"

definition allowed_relationship_type :: "string \<Rightarrow> bool" where
  \<comment> \<open>The allow-list the specification asks for: letters, digits and underscore only.
      The sources have no such test; it is here to state what they do without it.\<close>
  "allowed_relationship_type t = list_all is_word t"

definition grows :: "nat \<Rightarrow> world \<Rightarrow> world \<Rightarrow> bool" where
  \<comment> \<open>The second world is the first with at most \<open>k\<close> messages sent and at most \<open>k\<close>
      queries run since.\<close>
  "grows k w w' = (\<exists>evs. w' = w\<lparr>history := history w @ evs\<rparr> \<and> sends evs \<le> k \<and> queries evs \<le> k)"

fun has_bigint :: "jsval \<Rightarrow> bool" where
  \<comment> \<open>A big integer is the value or lies somewhere inside it.\<close>
  "has_bigint (JBigInt n) = True"
| "has_bigint (JArr xs) = (\<exists>x \<in> set xs. has_bigint x)"
| "has_bigint (JObj kvs) = (\<exists>kv \<in> set kvs. has_bigint (snd kv))"
| "has_bigint v = False"

definition cell_ok :: "jsval \<Rightarrow> bool" where
  \<comment> \<open>A cell that \<^verbatim>\<open>JSON.stringify\<close> is not called on or can write: not an array or
      object with a big integer inside.\<close>
  "cell_ok v = (js_typeof v \<noteq> ''object'' \<or> \<not> has_bigint v)"

section \<open>Example inputs\<close>

definition stop_message :: chat_message where
  "stop_message = \<lparr>content = ''STOP'', role = Assistant, stage = ''Query Building''\<rparr>"

definition empty_result :: "string \<Rightarrow> jsval \<Rightarrow> CypherResult" where
  "empty_result q params =
     \<lparr>summary = \<lparr>query = q, parameters = params, counters = JObj []\<rparr>, records = []\<rparr>"

definition offline_world :: world where
  \<comment> \<open>No connection; the model answers STOP to everything.\<close>
  "offline_world =
     \<lparr>isConnected = (\<lambda>h. False),
      runQuery = (\<lambda>h q params. Inl (Error ''connection refused'')),
      reply = (\<lambda>h ms. stop_message),
      history = []\<rparr>"

definition online_world :: world where
  \<comment> \<open>A connected store in which no query finds anything; the model answers STOP.\<close>
  "online_world =
     \<lparr>isConnected = (\<lambda>h. True),
      runQuery = (\<lambda>h q params. Inr (empty_result q params)),
      reply = (\<lambda>h ms. stop_message),
      history = []\<rparr>"

definition two_records :: CypherResult where
  "two_records =
     \<lparr>summary = \<lparr>query = ''MATCH (n) RETURN n.id AS id, n.age AS age'', parameters = JObj [], counters = JObj []\<rparr>,
      records = [[(''id'', JStr ''e1''), (''age'', JNum (NInt 3))], [(''id'', JStr ''e2''), (''age'', JNull)]]\<rparr>"

definition spec_row :: FormattedCypherResult where
  \<open>spec_row =
     \<lparr>summary = \<lparr>query = ''MATCH (n) RETURN null AS a, 'x' AS b, n AS c'', parameters = JObj [], counters = JObj []\<rparr>,
      columns = [''a'', ''b'', ''c''],
      rows = [[JNull, JStr ''x'', JObj [(''labels'', JArr [JStr ''Person''])]]]\<rparr>\<close>

definition marked_row :: FormattedCypherResult where
  \<open>marked_row =
     \<lparr>summary = \<lparr>query = ''MATCH (n) RETURN null AS a, 'x' AS b, n AS c'', parameters = JObj [], counters = JObj []\<rparr>,
      columns = [''a'', ''b'', ''c''],
      rows = [[JNull, JStr ''x'', JObj [(''_labels'', JArr [JStr ''Person''])]]]\<rparr>\<close>

definition indexed_row :: FormattedCypherResult where
  \<comment> \<open>The result of a query such as \<^verbatim>\<open>RETURN 'x' AS b, 2.5 AS `1`, 7 AS `0`\<close>, with
      the integer as the driver's \<^verbatim>\<open>Integer\<close> object.\<close>
  \<open>indexed_row =
     \<lparr>summary = \<lparr>query = ''RETURN 'x' AS b, 2.5 AS `1`, 7 AS `0`'', parameters = JObj [], counters = JObj []\<rparr>,
      columns = [''b'', ''1'', ''0''],
      rows = [[JStr ''x'', JNum (NOther ''2.5''), JObj [(''low'', JNum (NInt 7)), (''high'', JNum (NInt 0))]]]\<rparr>\<close>

definition proto_row :: FormattedCypherResult where
  \<open>proto_row =
     \<lparr>summary = \<lparr>query = ''RETURN 1.0 AS a, 0.0/0.0 AS __proto__'', parameters = JObj [], counters = JObj []\<rparr>,
      columns = [''a'', ''__proto__''],
      rows = [[JNum (NInt 1), JNum NaN]]\<rparr>\<close>

definition bigint_row :: FormattedCypherResult where
  \<open>bigint_row =
     \<lparr>summary = \<lparr>query = ''RETURN 1 AS a, [2] AS b'', parameters = JObj [], counters = JObj []\<rparr>,
      columns = [''a'', ''b''],
      rows = [[JBigInt 1, JArr [JBigInt 2]]]\<rparr>\<close>

definition chatty_world :: world where
  \<comment> \<open>No connection, and a model that asks for an entity search whatever it is told.\<close>
  "chatty_world =
     \<lparr>isConnected = (\<lambda>h. False),
      runQuery = (\<lambda>h q params. Inl (Error ''connection refused'')),
      reply = (\<lambda>h ms. \<lparr>content = ''Entity Search: radium'', role = Assistant, stage = ''Query Building''\<rparr>),
      history = []\<rparr>"

definition babbling_world :: world where
  \<comment> \<open>A connected store, and a model whose replies never follow the format.\<close>
  "babbling_world =
     \<lparr>isConnected = (\<lambda>h. True),
      runQuery = (\<lambda>h q params. Inr (empty_result q params)),
      reply = (\<lambda>h ms. \<lparr>content = ''Let me think.'', role = Assistant, stage = ''Query Building''\<rparr>),
      history = []\<rparr>"

section \<open>Properties\<close>

subsection \<open>The executor\<close>

text \<open>
  C8. Whatever the query text and the parameters, \<open>runCypherQuery\<close> called while the
  connection reports that it is not connected throws the error \<open>Not connected to Neo4j\<close>
  and nothing else, and leaves the world as it was: no query reaches the store.
\<close>

theorem runCypherQuery_not_connected:
  assumes "\<not> isConnected w (history w)"
  shows "runCypherQuery w q params = (Inl (Error ''Not connected to Neo4j''), w)
       \<and> history (snd (runCypherQuery w q params)) = history w"
  using assms by (simp add: runCypherQuery_def)

theorem runCypherQuery_not_connected_witness:
  "\<not> isConnected offline_world (history offline_world)
   \<and> runCypherQuery offline_world ''MATCH (n) RETURN n'' (JObj [])
       = (Inl (Error ''Not connected to Neo4j''), offline_world)
   \<and> history (snd (runCypherQuery offline_world ''MATCH (n) RETURN n'' (JObj []))) = []"
proof -
  have off: "\<not> isConnected offline_world (history offline_world)"
    by (simp add: offline_world_def)
  have h: "history offline_world = []"
    by (simp add: offline_world_def)
  show ?thesis
    using off h runCypherQuery_not_connected [OF off, of "''MATCH (n) RETURN n''" "JObj []"]
    by simp
qed

subsection \<open>The formatter\<close>

lemma traverse_Inr_iff:
  "traverse f xs = Inr ys \<longleftrightarrow> list_all2 (\<lambda>x y. f x = Inr y) xs ys"
proof (induction xs arbitrary: ys)
  case Nil
  then show ?case by auto
next
  case (Cons x xs)
  show ?case
  proof (cases "f x")
    case Inl
    then show ?thesis by (cases ys) auto
  next
    case fx: (Inr y)
    show ?thesis
    proof (cases "traverse f xs")
      case Inl
      with fx Cons.IH show ?thesis by (cases ys) auto
    next
      case (Inr zs)
      with fx Cons.IH show ?thesis by (cases ys) auto
    qed
  qed
qed

lemma traverse_total:
  "(\<And>x. x \<in> set xs \<Longrightarrow> \<exists>y. f x = Inr y) \<Longrightarrow> \<exists>ys. traverse f xs = Inr ys"
proof (induction xs)
  case Nil
  then show ?case by simp
next
  case (Cons x xs)
  then obtain y where "f x = Inr y" by auto
  moreover from Cons obtain ys where "traverse f xs = Inr ys" by auto
  ultimately show ?case by simp
qed

lemma record_get_Inr_iff: "record_get r k = Inr v \<longleftrightarrow> map_of r k = Some v"
  by (auto simp: record_get_def split: option.splits)

text \<open>
  C10. For a query result whose records all have the keys of the first record,
  \<open>formatCypherResult\<close> returns: the columns are the keys of the first record, there is
  one row per record, and each row has one entry per column, the value the record holds
  under that column, in column order. With no record at all the columns and the rows are
  both empty, whatever the query projects.
\<close>

theorem formatCypherResult_shape:
  assumes "same_keys result"
  shows "\<exists>f. formatCypherResult result = Inr f
           \<and> summary f = summary result
           \<and> columns f = (if records result = [] then [] else map fst (hd (records result)))
           \<and> length (rows f) = length (records result)
           \<and> (\<forall>i < length (rows f).
                 length (rows f ! i) = length (columns f)
                 \<and> (\<forall>j < length (columns f).
                       map_of (records result ! i) (columns f ! j) = Some (rows f ! i ! j)))"
proof (cases "records result = []")
  case True
  then show ?thesis by (simp add: formatCypherResult_def)
next
  case False
  define cols where "cols = map fst (hd (records result))"
  have c0: "map fst (records result ! 0) = cols"
    using False by (simp add: cols_def hd_conv_nth)
  have each: "\<exists>row. traverse (\<lambda>column. record_get r column) cols = Inr row"
    if "r \<in> set (records result)" for r
  proof (rule traverse_total)
    fix k assume "k \<in> set cols"
    with that assms have "map_of r k \<noteq> None"
      by (auto simp: same_keys_def cols_def list_all_iff)
    then show "\<exists>y. record_get r k = Inr y"
      by (auto simp: record_get_def)
  qed
  from traverse_total [of "records result" "\<lambda>r. traverse (\<lambda>column. record_get r column) cols", OF each]
  obtain rs where rs: "traverse (\<lambda>r. traverse (\<lambda>column. record_get r column) cols) (records result) = Inr rs"
    by blast
  then have all2: "list_all2 (\<lambda>r row. list_all2 (\<lambda>k v. map_of r k = Some v) cols row) (records result) rs"
    by (simp add: traverse_Inr_iff record_get_Inr_iff)
  have f: "formatCypherResult result = Inr \<lparr>summary = summary result, columns = cols, rows = rs\<rparr>"
    using False rs c0 by (simp add: formatCypherResult_def Let_def)
  have len: "length rs = length (records result)"
    using all2 by (simp add: list_all2_lengthD)
  have cell: "length (rs ! i) = length cols
      \<and> (\<forall>j < length cols. map_of (records result ! i) (cols ! j) = Some (rs ! i ! j))"
    if "i < length rs" for i
  proof -
    from all2 that have "list_all2 (\<lambda>k v. map_of (records result ! i) k = Some v) cols (rs ! i)"
      by (simp add: list_all2_conv_all_nth)
    then show ?thesis by (simp add: list_all2_conv_all_nth)
  qed
  show ?thesis
    using f len cell False by (simp add: cols_def)
qed

theorem formatCypherResult_shape_witness:
  "same_keys two_records
   \<and> formatCypherResult two_records =
       Inr \<lparr>summary = summary two_records, columns = [''id'', ''age''],
            rows = [[JStr ''e1'', JNum (NInt 3)], [JStr ''e2'', JNull]]\<rparr>
   \<and> formatCypherResult (empty_result ''MATCH (n) RETURN n'' (JObj [])) =
       Inr \<lparr>summary = summary (empty_result ''MATCH (n) RETURN n'' (JObj [])), columns = [], rows = []\<rparr>"
proof -
  have k: "same_keys two_records"
    by (simp add: same_keys_def two_records_def)
  have e: "same_keys (empty_result ''MATCH (n) RETURN n'' (JObj []))"
    by (simp add: same_keys_def empty_result_def)
  from formatCypherResult_shape [OF k] obtain f where
    f: "formatCypherResult two_records = Inr f" "summary f = summary two_records"
       "columns f = (if records two_records = [] then [] else map fst (hd (records two_records)))"
       "length (rows f) = length (records two_records)"
       "\<forall>i < length (rows f). length (rows f ! i) = length (columns f)
          \<and> (\<forall>j < length (columns f). map_of (records two_records ! i) (columns f ! j) = Some (rows f ! i ! j))"
    by blast
  from formatCypherResult_shape [OF e] obtain g where
    g: "formatCypherResult (empty_result ''MATCH (n) RETURN n'' (JObj [])) = Inr g"
       "summary g = summary (empty_result ''MATCH (n) RETURN n'' (JObj []))"
       "columns g = (if records (empty_result ''MATCH (n) RETURN n'' (JObj [])) = [] then [] else map fst (hd (records (empty_result ''MATCH (n) RETURN n'' (JObj [])))))"
       "length (rows g) = length (records (empty_result ''MATCH (n) RETURN n'' (JObj [])))"
    by blast
  have "g = \<lparr>summary = summary (empty_result ''MATCH (n) RETURN n'' (JObj [])), columns = [], rows = []\<rparr>"
    using g(2,3,4) by (cases g) (simp add: empty_result_def)
  moreover have "formatCypherResult two_records =
       Inr \<lparr>summary = summary two_records, columns = [''id'', ''age''],
            rows = [[JStr ''e1'', JNum (NInt 3)], [JStr ''e2'', JNull]]\<rparr>"
    by (simp add: formatCypherResult_def two_records_def record_get_def)
  ultimately show ?thesis using k g(1) by simp
qed

subsection \<open>The normalizer\<close>

lemma insert_index_keys:
  "fst ` set (insert_index i k v ms) = insert k (fst ` set ms)"
  by (induction ms) (auto split: option.splits)

lemma insert_index_lookup:
  "map_of ms k = None \<Longrightarrow> map_of (insert_index i k v ms) x = ((map_of ms)(k \<mapsto> v)) x"
proof (induction ms)
  case Nil
  then show ?case by simp
next
  case (Cons p ms)
  obtain k' v' where p: "p = (k', v')" by (cases p)
  with Cons.prems have ne: "k' \<noteq> k" and none: "map_of ms k = None"
    by (auto split: if_splits)
  from Cons.IH [OF none] ne p show ?case
    by (auto split: option.splits)
qed

lemma replace_lookup:
  "map_of (map (\<lambda>p. if fst p = k then (k, v) else p) ms) x =
     (if x = k then (case map_of ms k of None \<Rightarrow> None | Some u \<Rightarrow> Some v) else map_of ms x)"
proof (induction ms)
  case Nil
  then show ?case by simp
next
  case (Cons p ms)
  obtain k' v' where p: "p = (k', v')" by (cases p)
  with Cons.IH show ?case by auto
qed

lemma replace_keys:
  "map fst (map (\<lambda>p. if fst p = k then (k, v) else p) ms) = map fst ms"
  by (induction ms) auto

lemma obj_set_keys: "fst ` set (obj_set k v ms) = insert k (fst ` set ms)"
proof (cases "k \<in> set (map fst ms)")
  case True
  have "fst ` set (map (\<lambda>p. if fst p = k then (k, v) else p) ms) = fst ` set ms"
    using replace_keys [of k v ms] by (metis set_map)
  with True show ?thesis
    unfolding obj_set_def by (simp only: if_True) auto
next
  case False
  show ?thesis
  proof (cases "array_index k")
    case None
    with False show ?thesis unfolding obj_set_def by simp
  next
    case (Some i)
    with False show ?thesis unfolding obj_set_def by (simp add: insert_index_keys)
  qed
qed

lemma obj_set_lookup: "map_of (obj_set k v ms) x = ((map_of ms)(k \<mapsto> v)) x"
proof (cases "k \<in> set (map fst ms)")
  case True
  then obtain u where "map_of ms k = Some u"
    by (metis map_of_eq_None_iff not_None_eq set_map)
  with True show ?thesis
    unfolding obj_set_def by (simp only: if_True replace_lookup) simp
next
  case False
  then have none: "map_of ms k = None"
    by (simp add: map_of_eq_None_iff)
  show ?thesis
  proof (cases "array_index k")
    case None
    have "map_of (ms @ [(k, v)]) x = ((map_of ms)(k \<mapsto> v)) x"
      using none by (cases "map_of ms x") (auto simp: map_add_def)
    with False None show ?thesis unfolding obj_set_def by simp
  next
    case (Some i)
    with False insert_index_lookup [OF none] show ?thesis unfolding obj_set_def by simp
  qed
qed

lemma row_binding_snoc:
  "row_binding (cols @ [c]) row =
     (case row_binding cols row of
        Inl e \<Rightarrow> Inl e
      | Inr b \<Rightarrow>
          (case cell_binding (cell_at row (length cols)) of
             Inl e \<Rightarrow> Inl e
           | Inr x \<Rightarrow> Inr (obj_assign c x b)))"
proof -
  have "zip (cols @ [c]) [0 ..< length (cols @ [c])]
      = zip cols [0 ..< length cols] @ [(c, length cols)]"
    by simp
  then show ?thesis
    unfolding row_binding_def by simp
qed

lemma row_binding_members:
  assumes "distinct cols"
    and "\<And>i. i < length cols \<Longrightarrow> cell_binding (cell_at row i) = Inr (g i)"
  shows "\<exists>ob. row_binding cols row = Inr ob
           \<and> fst ` set (members ob) = set cols - {''__proto__''}
           \<and> (\<forall>i < length cols. cols ! i \<noteq> ''__proto__'' \<longrightarrow>
                 map_of (members ob) (cols ! i) = Some (g i))"
  using assms
proof (induction cols rule: rev_induct)
  case Nil
  then show ?case by (simp add: row_binding_def empty_object_def)
next
  case (snoc c cols)
  from snoc.prems have d: "distinct cols" and fresh: "c \<notin> set cols" by simp_all
  have cells: "cell_binding (cell_at row i) = Inr (g i)" if "i < length cols" for i
    using snoc.prems(2) [of i] that by simp
  from snoc.IH [OF d cells] obtain ob where
    ob: "row_binding cols row = Inr ob"
        "fst ` set (members ob) = set cols - {''__proto__''}"
        "\<forall>i < length cols. cols ! i \<noteq> ''__proto__'' \<longrightarrow> map_of (members ob) (cols ! i) = Some (g i)"
    by blast
  have last: "cell_binding (cell_at row (length cols)) = Inr (g (length cols))"
    using snoc.prems(2) [of "length cols"] by simp
  have step: "row_binding (cols @ [c]) row = Inr (obj_assign c (g (length cols)) ob)"
    by (simp add: row_binding_snoc ob(1) last)
  let ?ob = "obj_assign c (g (length cols)) ob"
  have keys: "fst ` set (members ?ob) = set (cols @ [c]) - {''__proto__''}"
  proof (cases "c = ''__proto__''")
    case True
    then have "members ?ob = members ob" by (simp add: obj_assign_def)
    with ob(2) True show ?thesis by auto
  next
    case False
    then have "members ?ob = obj_set c (g (length cols)) (members ob)"
      by (simp add: obj_assign_def)
    then have "fst ` set (members ?ob) = insert c (set cols - {''__proto__''})"
      using ob(2) by (simp add: obj_set_keys)
    with False show ?thesis by auto
  qed
  have look: "map_of (members ?ob) ((cols @ [c]) ! i) = Some (g i)"
    if i: "i < length (cols @ [c])" and np: "(cols @ [c]) ! i \<noteq> ''__proto__''" for i
  proof (cases "i < length cols")
    case True
    then have ne: "cols ! i \<noteq> c" using fresh by (metis nth_mem)
    from True np have np': "cols ! i \<noteq> ''__proto__''" by (simp add: nth_append)
    with ob(3) True have old: "map_of (members ob) (cols ! i) = Some (g i)" by simp
    have "map_of (members ?ob) (cols ! i) = Some (g i)"
    proof (cases "c = ''__proto__''")
      case True
      then show ?thesis using old by (simp add: obj_assign_def)
    next
      case False
      then show ?thesis using old ne by (simp add: obj_assign_def obj_set_lookup)
    qed
    with True show ?thesis by (simp add: nth_append)
  next
    case False
    with i have il: "i = length cols" by simp
    with np have "c \<noteq> ''__proto__''" by simp
    then have "map_of (members ?ob) c = Some (g (length cols))"
      by (simp add: obj_assign_def obj_set_lookup)
    with il show ?thesis by simp
  qed
  show ?case
  proof (intro exI conjI)
    show "row_binding (cols @ [c]) row = Inr ?ob" by (rule step)
    show "fst ` set (members ?ob) = set (cols @ [c]) - {''__proto__''}" by (rule keys)
    show "\<forall>i < length (cols @ [c]). (cols @ [c]) ! i \<noteq> ''__proto__'' \<longrightarrow>
        map_of (members ?ob) ((cols @ [c]) ! i) = Some (g i)"
      using look by blast
  qed
qed

lemma JSON_stringify_returns: "\<not> has_bigint v \<Longrightarrow> \<exists>r. JSON_stringify v = Inr r"
proof (induction v)
  case (JArr xs)
  have "\<exists>ts. traverse (\<lambda>v. case JSON_stringify v of
                             Inl e \<Rightarrow> Inl e
                           | Inr None \<Rightarrow> Inr ''null''
                           | Inr (Some t) \<Rightarrow> Inr t) xs = Inr ts"
  proof (rule traverse_total)
    fix x assume "x \<in> set xs"
    with JArr obtain r where "JSON_stringify x = Inr r" by auto
    then show "\<exists>y. (case JSON_stringify x of
                             Inl e \<Rightarrow> Inl e
                           | Inr None \<Rightarrow> Inr ''null''
                           | Inr (Some t) \<Rightarrow> Inr t) = Inr y"
      by (cases r) auto
  qed
  then show ?case by auto
next
  case (JObj kvs)
  have "\<exists>tss. traverse (\<lambda>kv. case JSON_stringify (snd kv) of
                              Inl e \<Rightarrow> Inl e
                            | Inr None \<Rightarrow> Inr []
                            | Inr (Some t) \<Rightarrow> Inr [json_quote (fst kv) @ '':'' @ t]) kvs = Inr tss"
  proof (rule traverse_total)
    fix kv assume kv: "kv \<in> set kvs"
    obtain k x where p: "kv = (k, x)" by (cases kv)
    with kv JObj.prems have "\<not> has_bigint x" by auto
    moreover from kv p have "x \<in> Basic_BNFs.snds kv" by simp
    ultimately obtain r where "JSON_stringify x = Inr r"
      using JObj.IH [OF kv] by blast
    with p show "\<exists>y. (case JSON_stringify (snd kv) of
                              Inl e \<Rightarrow> Inl e
                            | Inr None \<Rightarrow> Inr []
                            | Inr (Some t) \<Rightarrow> Inr [json_quote (fst kv) @ '':'' @ t]) = Inr y"
      by (cases r) auto
  qed
  then show ?case by auto
qed simp_all

lemma JSON_stringify_text:
  assumes "\<not> has_bigint v" and "js_typeof v = ''object''"
  shows "\<exists>t. JSON_stringify v = Inr (Some t)"
proof -
  from JSON_stringify_returns [OF assms(1)] obtain r where "JSON_stringify v = Inr r" by blast
  with assms(2) show ?thesis
    by (cases v) (auto split: sum.splits)
qed

lemma cell_binding_returns: "cell_ok v \<Longrightarrow> \<exists>b. cell_binding v = Inr b"
proof (cases "js_typeof v = ''object''")
  case True
  assume "cell_ok v"
  with True have "\<not> has_bigint v" by (simp add: cell_ok_def)
  from JSON_stringify_returns [OF this] show ?thesis
    by (auto simp: cell_binding_def cell_value_def split: option.splits)
next
  case False
  then show ?thesis
    by (auto simp: cell_binding_def cell_value_def)
qed

lemma traverse_first_error:
  assumes "\<And>x. x \<in> set xs \<Longrightarrow> (\<exists>y. f x = Inr y) \<or> f x = Inl e"
    and "\<exists>x \<in> set xs. f x = Inl e"
  shows "traverse f xs = Inl e"
  using assms
proof (induction xs)
  case Nil
  then show ?case by simp
next
  case (Cons x xs)
  show ?case
  proof (cases "f x")
    case (Inl e')
    with Cons.prems(1) [of x] show ?thesis by simp
  next
    case (Inr y)
    with Cons.prems(2) have "\<exists>x \<in> set xs. f x = Inl e" by auto
    with Cons.IH Cons.prems(1) have "traverse f xs = Inl e" by simp
    with Inr show ?thesis by simp
  qed
qed

lemma JSON_stringify_throws: "has_bigint v \<Longrightarrow> JSON_stringify v = Inl bigint_error"
proof (induction v)
  case (JArr xs)
  let ?f = "\<lambda>v. case JSON_stringify v of
                             Inl e \<Rightarrow> Inl e
                           | Inr None \<Rightarrow> Inr ''null''
                           | Inr (Some t) \<Rightarrow> Inr t"
  have "traverse ?f xs = Inl bigint_error"
  proof (rule traverse_first_error)
    fix x assume x: "x \<in> set xs"
    show "(\<exists>y. ?f x = Inr y) \<or> ?f x = Inl bigint_error"
    proof (cases "has_bigint x")
      case True
      with JArr.IH [OF x] show ?thesis by simp
    next
      case False
      from JSON_stringify_returns [OF this] obtain r where "JSON_stringify x = Inr r" by blast
      then show ?thesis by (cases r) auto
    qed
  next
    from JArr.prems obtain x where "x \<in> set xs" "has_bigint x" by auto
    with JArr.IH show "\<exists>x \<in> set xs. ?f x = Inl bigint_error" by force
  qed
  then show ?case by simp
next
  case (JObj kvs)
  let ?f = "\<lambda>kv. case JSON_stringify (snd kv) of
                              Inl e \<Rightarrow> Inl e
                            | Inr None \<Rightarrow> Inr []
                            | Inr (Some t) \<Rightarrow> Inr [json_quote (fst kv) @ '':'' @ t]"
  have "traverse ?f kvs = Inl bigint_error"
  proof (rule traverse_first_error)
    fix kv assume kv: "kv \<in> set kvs"
    obtain k x where p: "kv = (k, x)" by (cases kv)
    then have sn: "x \<in> Basic_BNFs.snds kv" by simp
    show "(\<exists>y. ?f kv = Inr y) \<or> ?f kv = Inl bigint_error"
    proof (cases "has_bigint x")
      case True
      with JObj.IH [OF kv sn] p show ?thesis by simp
    next
      case False
      from JSON_stringify_returns [OF this] obtain r where "JSON_stringify x = Inr r" by blast
      with p show ?thesis by (cases r) auto
    qed
  next
    from JObj.prems obtain kv where kv: "kv \<in> set kvs" "has_bigint (snd kv)" by auto
    obtain k x where p: "kv = (k, x)" by (cases kv)
    then have "x \<in> Basic_BNFs.snds kv" by simp
    with JObj.IH [OF kv(1)] kv(2) p have "JSON_stringify x = Inl bigint_error" by simp
    with p kv(1) show "\<exists>kv \<in> set kvs. ?f kv = Inl bigint_error" by force
  qed
  then show ?case by simp
qed simp_all

lemma cell_binding_throws:
  "js_typeof v = ''object'' \<Longrightarrow> has_bigint v \<Longrightarrow> cell_binding v = Inl bigint_error"
proof -
  assume o: "js_typeof v = ''object''" and "has_bigint v"
  then have "JSON_stringify v = Inl bigint_error" by (simp add: JSON_stringify_throws)
  moreover from \<open>has_bigint v\<close> have "v \<noteq> JNull" "v \<noteq> JUndefined" by auto
  ultimately show ?thesis using o by (simp add: cell_binding_def cell_value_def)
qed

text \<open>
  C4, as the code has it. Over distinct columns, when no cell is an array or object with a
  big integer inside, the conversion returns one object per row, and under every column
  name other than \<open>__proto__\<close> that object holds the one binding of the cell in that
  column. The binding of a cell: \<open>null\<close> and an absent cell give the type \<open>unknown\<close> and
  the empty value; an array gives the type \<open>object\<close> and its JSON text; an object gives
  its JSON text and the type \<open>uri\<close> when its member \<open>_labels\<close>, \<open>_id\<close> or \<open>_type\<close> is
  truthy, the type \<open>object\<close> otherwise; a boolean, a number, a big integer and a string
  give their \<open>typeof\<close> and their string form. On the row
  \<open>[null, "x", {labels: ["Person"]}]\<close> over the columns a, b, c the third binding has
  the type \<open>object\<close>.
\<close>

theorem convertToSparqlResultsFormat_cells:
  assumes "distinct (columns f)" and "list_all (list_all cell_ok) (rows f)"
  shows \<open>(\<exists>bs. convertToSparqlResultsFormat f = Inr \<lparr>vars = columns f, bindings = bs\<rparr>
            \<and> length bs = length (rows f)
            \<and> (\<forall>j < length bs.
                  fst ` set (members (bs ! j)) = set (columns f) - {''__proto__''}
                  \<and> (\<forall>i < length (columns f). columns f ! i \<noteq> ''__proto__'' \<longrightarrow>
                        (\<exists>b. cell_binding (cell_at (rows f ! j) i) = Inr b
                            \<and> map_of (members (bs ! j)) (columns f ! i) = Some b))))
         \<and> cell_binding JNull = Inr \<lparr>btype = ''unknown'', bvalue = []\<rparr>
         \<and> cell_binding JUndefined = Inr \<lparr>btype = ''unknown'', bvalue = []\<rparr>
         \<and> cell_binding (JBool b) =
             Inr \<lparr>btype = ''boolean'', bvalue = (if b then ''true'' else ''false'')\<rparr>
         \<and> cell_binding (JNum x) = Inr \<lparr>btype = ''number'', bvalue = num_string x\<rparr>
         \<and> cell_binding (JNum (NInt w)) = Inr \<lparr>btype = ''number'', bvalue = show_int (sint w)\<rparr>
         \<and> cell_binding (JNum NaN) = Inr \<lparr>btype = ''number'', bvalue = ''NaN''\<rparr>
         \<and> cell_binding (JBigInt n) = Inr \<lparr>btype = ''bigint'', bvalue = show_int n\<rparr>
         \<and> cell_binding (JStr s) = Inr \<lparr>btype = ''string'', bvalue = s\<rparr>
         \<and> (\<not> has_bigint (JArr xs) \<longrightarrow>
              (\<exists>t. JSON_stringify (JArr xs) = Inr (Some t)
                 \<and> cell_binding (JArr xs) = Inr \<lparr>btype = ''object'', bvalue = t\<rparr>))
         \<and> (\<not> has_bigint (JObj kvs) \<longrightarrow>
              (\<exists>t. JSON_stringify (JObj kvs) = Inr (Some t)
                 \<and> cell_binding (JObj kvs) =
                     Inr \<lparr>btype = (if js_truthy (js_get (JObj kvs) ''_labels'')
                                       \<or> js_truthy (js_get (JObj kvs) ''_id'')
                                       \<or> js_truthy (js_get (JObj kvs) ''_type'')
                                    then ''uri'' else ''object''),
                          bvalue = t\<rparr>))
         \<and> convertToSparqlResultsFormat spec_row =
             Inr \<lparr>vars = [''a'', ''b'', ''c''],
                  bindings =
                    [\<lparr>members =
                        [(''a'', \<lparr>btype = ''unknown'', bvalue = []\<rparr>),
                         (''b'', \<lparr>btype = ''string'', bvalue = ''x''\<rparr>),
                         (''c'', \<lparr>btype = ''object'', bvalue = ''{"labels":["Person"]}''\<rparr>)],
                      prototype = None\<rparr>]\<rparr>\<close>
proof -
  let ?g = "\<lambda>row i. projr (cell_binding (cell_at row i))"
  have cell: "cell_binding (cell_at row i) = Inr (?g row i)" if "row \<in> set (rows f)" for row i
  proof -
    have "cell_ok (cell_at row i)"
    proof (cases "i < length row")
      case True
      with that assms(2) show ?thesis
        by (auto simp: cell_at_def nth_opt_def list_all_iff)
    next
      case False
      then show ?thesis by (simp add: cell_at_def nth_opt_def cell_ok_def)
    qed
    from cell_binding_returns [OF this] show ?thesis by auto
  qed
  have row: "\<exists>ob. row_binding (columns f) row = Inr ob
           \<and> fst ` set (members ob) = set (columns f) - {''__proto__''}
           \<and> (\<forall>i < length (columns f). columns f ! i \<noteq> ''__proto__'' \<longrightarrow>
                 map_of (members ob) (columns f ! i) = Some (?g row i))"
    if "row \<in> set (rows f)" for row
    by (rule row_binding_members [OF assms(1)]) (rule cell [OF that])
  from traverse_total [of "rows f" "row_binding (columns f)"] row
  obtain bs where bs: "traverse (row_binding (columns f)) (rows f) = Inr bs"
    by blast
  then have all2: "list_all2 (\<lambda>r ob. row_binding (columns f) r = Inr ob) (rows f) bs"
    by (simp add: traverse_Inr_iff)
  then have len: "length bs = length (rows f)"
    by (simp add: list_all2_lengthD)
  have each: "fst ` set (members (bs ! j)) = set (columns f) - {''__proto__''}
      \<and> (\<forall>i < length (columns f). columns f ! i \<noteq> ''__proto__'' \<longrightarrow>
            (\<exists>b. cell_binding (cell_at (rows f ! j) i) = Inr b
                \<and> map_of (members (bs ! j)) (columns f ! i) = Some b))"
    if j: "j < length bs" for j
  proof -
    from j len have mem: "rows f ! j \<in> set (rows f)" by simp
    from all2 j have "row_binding (columns f) (rows f ! j) = Inr (bs ! j)"
      by (simp add: list_all2_conv_all_nth)
    with row [OF mem] have
      k: "fst ` set (members (bs ! j)) = set (columns f) - {''__proto__''}" and
      l: "\<forall>i < length (columns f). columns f ! i \<noteq> ''__proto__'' \<longrightarrow>
            map_of (members (bs ! j)) (columns f ! i) = Some (?g (rows f ! j) i)"
      by auto
    from l cell [OF mem] have
      "\<forall>i < length (columns f). columns f ! i \<noteq> ''__proto__'' \<longrightarrow>
            (\<exists>b. cell_binding (cell_at (rows f ! j) i) = Inr b
                \<and> map_of (members (bs ! j)) (columns f ! i) = Some b)"
      by blast
    with k show ?thesis by blast
  qed
  have table: "\<exists>bs. convertToSparqlResultsFormat f = Inr \<lparr>vars = columns f, bindings = bs\<rparr>
            \<and> length bs = length (rows f)
            \<and> (\<forall>j < length bs.
                  fst ` set (members (bs ! j)) = set (columns f) - {''__proto__''}
                  \<and> (\<forall>i < length (columns f). columns f ! i \<noteq> ''__proto__'' \<longrightarrow>
                        (\<exists>b. cell_binding (cell_at (rows f ! j) i) = Inr b
                            \<and> map_of (members (bs ! j)) (columns f ! i) = Some b)))"
  proof (intro exI [of _ bs] conjI)
    show "convertToSparqlResultsFormat f = Inr \<lparr>vars = columns f, bindings = bs\<rparr>"
      using bs by (simp add: convertToSparqlResultsFormat_def)
    show "length bs = length (rows f)" by (rule len)
    show "\<forall>j < length bs.
                  fst ` set (members (bs ! j)) = set (columns f) - {''__proto__''}
                  \<and> (\<forall>i < length (columns f). columns f ! i \<noteq> ''__proto__'' \<longrightarrow>
                        (\<exists>b. cell_binding (cell_at (rows f ! j) i) = Inr b
                            \<and> map_of (members (bs ! j)) (columns f ! i) = Some b))"
      using each by blast
  qed
  have prim: "cell_binding JNull = Inr \<lparr>btype = ''unknown'', bvalue = []\<rparr>"
    "cell_binding JUndefined = Inr \<lparr>btype = ''unknown'', bvalue = []\<rparr>"
    "cell_binding (JBool b) =
             Inr \<lparr>btype = ''boolean'', bvalue = (if b then ''true'' else ''false'')\<rparr>"
    "cell_binding (JNum x) = Inr \<lparr>btype = ''number'', bvalue = num_string x\<rparr>"
    "cell_binding (JNum (NInt w)) = Inr \<lparr>btype = ''number'', bvalue = show_int (sint w)\<rparr>"
    "cell_binding (JNum NaN) = Inr \<lparr>btype = ''number'', bvalue = ''NaN''\<rparr>"
    "cell_binding (JBigInt n) = Inr \<lparr>btype = ''bigint'', bvalue = show_int n\<rparr>"
    "cell_binding (JStr s) = Inr \<lparr>btype = ''string'', bvalue = s\<rparr>"
    by (simp_all add: cell_binding_def cell_type_def cell_value_def)
  have arr: "\<not> has_bigint (JArr xs) \<longrightarrow>
              (\<exists>t. JSON_stringify (JArr xs) = Inr (Some t)
                 \<and> cell_binding (JArr xs) = Inr \<lparr>btype = ''object'', bvalue = t\<rparr>)"
  proof
    assume "\<not> has_bigint (JArr xs)"
    from JSON_stringify_text [OF this] obtain t where t: "JSON_stringify (JArr xs) = Inr (Some t)"
      by auto
    then have "cell_binding (JArr xs) = Inr \<lparr>btype = ''object'', bvalue = t\<rparr>"
      by (simp add: cell_binding_def cell_type_def cell_value_def del: JSON_stringify.simps)
    with t show "\<exists>t. JSON_stringify (JArr xs) = Inr (Some t)
                 \<and> cell_binding (JArr xs) = Inr \<lparr>btype = ''object'', bvalue = t\<rparr>"
      by blast
  qed
  have obj: "\<not> has_bigint (JObj kvs) \<longrightarrow>
              (\<exists>t. JSON_stringify (JObj kvs) = Inr (Some t)
                 \<and> cell_binding (JObj kvs) =
                     Inr \<lparr>btype = (if js_truthy (js_get (JObj kvs) ''_labels'')
                                       \<or> js_truthy (js_get (JObj kvs) ''_id'')
                                       \<or> js_truthy (js_get (JObj kvs) ''_type'')
                                    then ''uri'' else ''object''),
                          bvalue = t\<rparr>)"
  proof
    assume "\<not> has_bigint (JObj kvs)"
    from JSON_stringify_text [OF this] obtain t where t: "JSON_stringify (JObj kvs) = Inr (Some t)"
      by auto
    then have "cell_binding (JObj kvs) =
                     Inr \<lparr>btype = (if js_truthy (js_get (JObj kvs) ''_labels'')
                                       \<or> js_truthy (js_get (JObj kvs) ''_id'')
                                       \<or> js_truthy (js_get (JObj kvs) ''_type'')
                                    then ''uri'' else ''object''),
                          bvalue = t\<rparr>"
      by (simp add: cell_binding_def cell_type_def cell_value_def del: JSON_stringify.simps)
    with t show "\<exists>t. JSON_stringify (JObj kvs) = Inr (Some t)
                 \<and> cell_binding (JObj kvs) =
                     Inr \<lparr>btype = (if js_truthy (js_get (JObj kvs) ''_labels'')
                                       \<or> js_truthy (js_get (JObj kvs) ''_id'')
                                       \<or> js_truthy (js_get (JObj kvs) ''_type'')
                                    then ''uri'' else ''object''),
                          bvalue = t\<rparr>"
      by blast
  qed
  have ex: \<open>convertToSparqlResultsFormat spec_row =
             Inr \<lparr>vars = [''a'', ''b'', ''c''],
                  bindings =
                    [\<lparr>members =
                        [(''a'', \<lparr>btype = ''unknown'', bvalue = []\<rparr>),
                         (''b'', \<lparr>btype = ''string'', bvalue = ''x''\<rparr>),
                         (''c'', \<lparr>btype = ''object'', bvalue = ''{"labels":["Person"]}''\<rparr>)],
                      prototype = None\<rparr>]\<rparr>\<close>
    by code_simp
  from table prim arr obj ex show ?thesis by (intro conjI)
qed

text \<open>
  C4, the example as stated. The row of the specification,
  \<open>[null, "x", {labels: ["Person"]}]\<close> over the columns a, b, c: the object has a member
  \<open>labels\<close>, not \<open>_labels\<close>, and its binding has the type \<open>object\<close>, not \<open>uri\<close>.
\<close>

theorem convertToSparqlResultsFormat_spec_row:
  \<open>convertToSparqlResultsFormat spec_row =
     Inr \<lparr>vars = [''a'', ''b'', ''c''],
          bindings =
            [\<lparr>members =
                [(''a'', \<lparr>btype = ''unknown'', bvalue = []\<rparr>),
                 (''b'', \<lparr>btype = ''string'', bvalue = ''x''\<rparr>),
                 (''c'', \<lparr>btype = ''object'', bvalue = ''{"labels":["Person"]}''\<rparr>)],
              prototype = None\<rparr>]\<rparr>
   \<and> cell_binding (JObj [(''labels'', JArr [JStr ''Person''])])
       \<noteq> Inr \<lparr>btype = ''uri'', bvalue = ''{"labels":["Person"]}''\<rparr>\<close>
  by code_simp

theorem convertToSparqlResultsFormat_cells_witness:
  \<open>distinct (columns marked_row)
   \<and> list_all (list_all cell_ok) (rows marked_row)
   \<and> \<not> has_bigint (JArr [JNum PosInfinity, JUndefined])
   \<and> \<not> has_bigint (JObj [(''_labels'', JArr [JStr ''Person''])])
   \<and> (\<exists>bs. convertToSparqlResultsFormat marked_row =
              Inr \<lparr>vars = [''a'', ''b'', ''c''], bindings = bs\<rparr>
          \<and> length bs = 1
          \<and> fst ` set (members (bs ! 0)) = {''a'', ''b'', ''c''}
          \<and> map_of (members (bs ! 0)) ''a'' = Some \<lparr>btype = ''unknown'', bvalue = []\<rparr>
          \<and> map_of (members (bs ! 0)) ''b'' = Some \<lparr>btype = ''string'', bvalue = ''x''\<rparr>
          \<and> map_of (members (bs ! 0)) ''c''
              = Some \<lparr>btype = ''uri'', bvalue = ''{"_labels":["Person"]}''\<rparr>)
   \<and> cell_binding (JArr [JNum PosInfinity, JUndefined])
       = Inr \<lparr>btype = ''object'', bvalue = ''[null,null]''\<rparr>\<close>
proof -
  let ?o = "JObj [(''_labels'', JArr [JStr ''Person''])]"
  let ?a = "JArr [JNum PosInfinity, JUndefined]"
  have d: "distinct (columns marked_row)"
    by (simp add: marked_row_def)
  have k: "list_all (list_all cell_ok) (rows marked_row)"
    by (simp add: marked_row_def cell_ok_def)
  have nb: "\<not> has_bigint ?a" "\<not> has_bigint ?o"
    by simp_all
  have cols: "columns marked_row = [''a'', ''b'', ''c'']"
    and rws: "rows marked_row = [[JNull, JStr ''x'', ?o]]"
    by (simp_all add: marked_row_def)
  have ja: \<open>JSON_stringify ?a = Inr (Some ''[null,null]'')\<close>
    by code_simp
  have jo: \<open>JSON_stringify ?o = Inr (Some ''{"_labels":["Person"]}'')\<close>
    by code_simp
  note inst = convertToSparqlResultsFormat_cells [OF d k, of True NaN 0 0 "''x''" "[JNum PosInfinity, JUndefined]"
      "[(''_labels'', JArr [JStr ''Person''])]"]
  from inst obtain bs where
    bs: "convertToSparqlResultsFormat marked_row = Inr \<lparr>vars = columns marked_row, bindings = bs\<rparr>"
        "length bs = length (rows marked_row)"
        "\<forall>j < length bs.
            fst ` set (members (bs ! j)) = set (columns marked_row) - {''__proto__''}
            \<and> (\<forall>i < length (columns marked_row). columns marked_row ! i \<noteq> ''__proto__'' \<longrightarrow>
                  (\<exists>b. cell_binding (cell_at (rows marked_row ! j) i) = Inr b
                      \<and> map_of (members (bs ! j)) (columns marked_row ! i) = Some b))"
    by blast
  from inst have null: "cell_binding JNull = Inr \<lparr>btype = ''unknown'', bvalue = []\<rparr>"
    and str: "cell_binding (JStr ''x'') = Inr \<lparr>btype = ''string'', bvalue = ''x''\<rparr>"
    by blast+
  from inst nb(1) obtain ta where
    "JSON_stringify ?a = Inr (Some ta)" "cell_binding ?a = Inr \<lparr>btype = ''object'', bvalue = ta\<rparr>"
    by blast
  with ja have arr: \<open>cell_binding ?a = Inr \<lparr>btype = ''object'', bvalue = ''[null,null]''\<rparr>\<close>
    by (simp del: JSON_stringify.simps)
  from inst nb(2) obtain t where
    "JSON_stringify ?o = Inr (Some t)"
    "cell_binding ?o =
       Inr \<lparr>btype = (if js_truthy (js_get ?o ''_labels'') \<or> js_truthy (js_get ?o ''_id'')
                         \<or> js_truthy (js_get ?o ''_type'') then ''uri'' else ''object''),
            bvalue = t\<rparr>"
    by blast
  with jo have obj: \<open>cell_binding ?o = Inr \<lparr>btype = ''uri'', bvalue = ''{"_labels":["Person"]}''\<rparr>\<close>
    by (simp del: JSON_stringify.simps)
  have len: "length bs = 1"
    using bs(2) rws by simp
  with bs(3) have
    keys: "fst ` set (members (bs ! 0)) = set (columns marked_row) - {''__proto__''}" and
    look: "\<forall>i < length (columns marked_row). columns marked_row ! i \<noteq> ''__proto__'' \<longrightarrow>
                  (\<exists>b. cell_binding (cell_at (rows marked_row ! 0) i) = Inr b
                      \<and> map_of (members (bs ! 0)) (columns marked_row ! i) = Some b)"
    by simp_all
  have c0: "cell_at (rows marked_row ! 0) 0 = JNull"
    and c1: "cell_at (rows marked_row ! 0) (Suc 0) = JStr ''x''"
    and c2: "cell_at (rows marked_row ! 0) 2 = ?o"
    by (simp_all add: rws cell_at_def nth_opt_def)
  from look [rule_format, of 0] have a: "map_of (members (bs ! 0)) ''a'' = Some \<lparr>btype = ''unknown'', bvalue = []\<rparr>"
    using null by (simp add: cols c0)
  from look [rule_format, of 1] have b: "map_of (members (bs ! 0)) ''b'' = Some \<lparr>btype = ''string'', bvalue = ''x''\<rparr>"
    using str by (simp add: cols c1)
  from look [rule_format, of 2] have c: \<open>map_of (members (bs ! 0)) ''c''
      = Some \<lparr>btype = ''uri'', bvalue = ''{"_labels":["Person"]}''\<rparr>\<close>
    using obj by (simp add: cols c2)
  have ks: "fst ` set (members (bs ! 0)) = {''a'', ''b'', ''c''}"
    using keys by (simp add: cols)
  have "\<exists>bs. convertToSparqlResultsFormat marked_row =
              Inr \<lparr>vars = [''a'', ''b'', ''c''], bindings = bs\<rparr>
          \<and> length bs = 1
          \<and> fst ` set (members (bs ! 0)) = {''a'', ''b'', ''c''}
          \<and> map_of (members (bs ! 0)) ''a'' = Some \<lparr>btype = ''unknown'', bvalue = []\<rparr>
          \<and> map_of (members (bs ! 0)) ''b'' = Some \<lparr>btype = ''string'', bvalue = ''x''\<rparr>
          \<and> map_of (members (bs ! 0)) ''c''
              = Some \<lparr>btype = ''uri'', bvalue = [CHR ''{'', CHR 0x22, CHR ''_'', CHR ''l'', CHR ''a'',
                      CHR ''b'', CHR ''e'', CHR ''l'', CHR ''s'', CHR 0x22,
                      CHR '':'', CHR ''['', CHR 0x22, CHR ''P'', CHR ''e'',
                      CHR ''r'', CHR ''s'', CHR ''o'', CHR ''n'', CHR 0x22,
                      CHR '']'', CHR ''}'']\<rparr>"
    using bs(1) len ks a b c by (intro exI [of _ bs]) (simp add: cols)
  with d k nb arr show ?thesis by simp
qed

lemma marked_row_result:
  \<open>convertToSparqlResultsFormat marked_row =
     Inr \<lparr>vars = [''a'', ''b'', ''c''],
          bindings =
            [\<lparr>members =
                [(''a'', \<lparr>btype = ''unknown'', bvalue = []\<rparr>),
                 (''b'', \<lparr>btype = ''string'', bvalue = ''x''\<rparr>),
                 (''c'', \<lparr>btype = ''uri'', bvalue = ''{"_labels":["Person"]}''\<rparr>)],
              prototype = None\<rparr>]\<rparr>\<close>
  by code_simp

lemma indexed_row_result:
  \<open>convertToSparqlResultsFormat indexed_row =
     Inr \<lparr>vars = [''b'', ''1'', ''0''],
          bindings =
            [\<lparr>members =
                [(''0'', \<lparr>btype = ''object'', bvalue = ''{"low":7,"high":0}''\<rparr>),
                 (''1'', \<lparr>btype = ''number'', bvalue = ''2.5''\<rparr>),
                 (''b'', \<lparr>btype = ''string'', bvalue = ''x''\<rparr>)],
              prototype = None\<rparr>]\<rparr>\<close>
  by code_simp

lemma proto_row_result:
  \<open>convertToSparqlResultsFormat proto_row =
     Inr \<lparr>vars = [''a'', ''__proto__''],
          bindings =
            [\<lparr>members = [(''a'', \<lparr>btype = ''number'', bvalue = ''1''\<rparr>)],
              prototype = Some \<lparr>btype = ''number'', bvalue = ''NaN''\<rparr>\<rparr>]\<rparr>\<close>
  by code_simp

lemma bigint_row_result:
  \<open>cell_binding (JBigInt 1) = Inr \<lparr>btype = ''bigint'', bvalue = ''1''\<rparr>
   \<and> convertToSparqlResultsFormat bigint_row = Inl bigint_error\<close>
  by code_simp

subsection \<open>The pattern extractor\<close>

lemma many_match_len: "r \<in> set (many_match k s) \<Longrightarrow> length r \<le> length s"
  by (induction s) (auto split: if_splits)

lemma rx_match_len:
  "(rest, c') \<in> set (rx_match r s c) \<Longrightarrow> length rest + rx_min r \<le> length s"
proof (induction r arbitrary: s c rest c')
  case (Lit l)
  then show ?case by (auto simp: prefix_def split: if_splits)
next
  case (One k)
  then show ?case by (auto split: list.splits if_splits)
next
  case (Many k)
  then show ?case by (auto dest: many_match_len)
next
  case (Seq a b)
  from Seq.prems obtain s1 c1 where
    a: "(s1, c1) \<in> set (rx_match a s c)" and b: "(rest, c') \<in> set (rx_match b s1 c1)"
    by auto
  from Seq.IH(1) [OF a] Seq.IH(2) [OF b] show ?case by simp
next
  case (Alt a b)
  then show ?case by fastforce
next
  case (Opt a)
  then show ?case by fastforce
next
  case (Grp n a)
  then show ?case by fastforce
qed (auto split: if_splits)

lemma rx_first_len: "rx_first r s = Some (rest, c) \<Longrightarrow> length rest + rx_min r \<le> length s"
proof -
  assume "rx_first r s = Some (rest, c)"
  then have "(rest, c) \<in> set (rx_match r s no_caps)"
    by (auto simp: rx_first_def split: list.splits)
  then show ?thesis by (rule rx_match_len)
qed

lemma rx_search_len: "rx_search r s = Some (rest, c) \<Longrightarrow> length rest + rx_min r \<le> length s"
proof (induction s)
  case Nil
  then show ?case by (auto dest: rx_first_len)
next
  case (Cons x xs)
  then show ?case by (fastforce split: option.splits dest: rx_first_len)
qed

lemma nodePattern_consumes: "rx_search nodePattern s = Some (rest, c) \<Longrightarrow> length rest < length s"
  by (drule rx_search_len) (simp add: nodePattern_def Many1_def)

lemma relPattern_consumes: "rx_search relPattern s = Some (rest, c) \<Longrightarrow> length rest < length s"
  by (drule rx_search_len) (simp add: relPattern_def Many1_def)

lemma node_step_inv: "node_inv st \<Longrightarrow> node_inv (node_step st m)"
  by (cases st) (auto simp: node_inv_def node_step_def Let_def)

lemma node_step_nodes:
  "n \<in> set (fst (node_step st m)) \<Longrightarrow> n \<in> set (fst st) \<or> variable n = grp m 1"
  by (cases st) (auto simp: node_step_def Let_def split: if_splits)

lemma node_loop_inv: "node_inv st \<Longrightarrow> node_inv (foldl node_step st ms)"
  by (induction ms arbitrary: st) (simp_all add: node_step_inv)

lemma node_loop_nodes:
  "n \<in> set (fst (foldl node_step st ms)) \<Longrightarrow>
   n \<in> set (fst st) \<or> variable n \<in> (\<lambda>m. grp m 1) ` set ms"
proof (induction ms arbitrary: st)
  case Nil
  then show ?case by simp
next
  case (Cons m ms)
  from Cons.IH [of "node_step st m"] Cons.prems
  have "n \<in> set (fst (node_step st m)) \<or> variable n \<in> (\<lambda>m. grp m 1) ` set ms" by simp
  then show ?case by (auto dest: node_step_nodes)
qed

lemma ensure_node_inv: "node_inv st \<Longrightarrow> node_inv (ensure_node v st)"
  by (cases st) (auto simp: node_inv_def ensure_node_def placeholder_def)

lemma ensure_node_dom: "dom (snd (ensure_node v st)) = insert v (dom (snd st))"
  by (cases st) (auto simp: ensure_node_def)

lemma ensure_node_nodes:
  "n \<in> set (fst (ensure_node v st)) \<Longrightarrow> n \<in> set (fst st) \<or> n = placeholder (variable n)"
  by (cases st) (auto simp: ensure_node_def placeholder_def split: if_splits)

lemma rel_step_inv: "rel_inv d st \<Longrightarrow> rel_inv d (rel_step st m)"
proof -
  assume a: "rel_inv d st"
  obtain ns rels where st: "st = (ns, rels)" by (cases st)
  let ?ns' = "ensure_node (grp m 5) (ensure_node (grp m 1) ns)"
  have 1: "node_inv ?ns'"
    using a st by (simp add: rel_inv_def ensure_node_inv)
  have 2: "dom (snd ?ns') = insert (grp m 5) (insert (grp m 1) (dom (snd ns)))"
    by (simp add: ensure_node_dom)
  have 3: "list_all (\<lambda>n. n \<in> set d \<or> n = placeholder (variable n)) (fst ?ns')"
    using a st unfolding rel_inv_def list_all_iff
    by (auto dest!: ensure_node_nodes)
  show ?thesis
    using a 1 2 3 unfolding st rel_inv_def rel_step_def
    by (auto simp: Let_def list_all_iff)
qed

lemma rel_loop_inv: "rel_inv d st \<Longrightarrow> rel_inv d (foldl rel_step st ms)"
  by (induction ms arbitrary: st) (simp_all add: rel_step_inv)

text \<open>
  C9. Whatever the query text, the source and the target of every relationship of the
  result are variables of nodes of the same result, and a variable that the first loop did
  not find as a node pattern has the node with no labels and no properties. On the text
  \<open>(a)-[:X]->(c)\<close> the result has the node \<open>c\<close> with no labels.
\<close>

theorem parseCypherQuery_endpoints:
  "(\<forall>r \<in> set (relationships (parseCypherQuery q)).
      \<forall>v \<in> {source r, target r}.
        (\<exists>n \<in> set (nodes (parseCypherQuery q)). variable n = v)
        \<and> (v \<notin> set (declared_variables q) \<longrightarrow>
             placeholder v \<in> set (nodes (parseCypherQuery q))))
   \<and> parseCypherQuery ''(a)-[:X]->(c)'' =
       \<lparr>nodes = [\<lparr>variable = ''a'', labels = [], properties = None\<rparr>,
                 \<lparr>variable = ''c'', labels = [], properties = None\<rparr>],
        relationships = [\<lparr>rel_variable = None, rel_type = ''X'', source = ''a'',
                           target = ''c'', rel_properties = None\<rparr>]\<rparr>"
proof -
  define nq where "nq = normalize_query q"
  define declared where "declared = foldl node_step ([], Map.empty) (rx_exec_all nodePattern nq)"
  define final where "final = foldl rel_step (declared, []) (rx_exec_all relPattern nq)"
  have p: "parseCypherQuery q = \<lparr>nodes = fst (fst final), relationships = snd final\<rparr>"
    by (simp add: parseCypherQuery_def Let_def final_def declared_def nq_def)
  have "node_inv declared"
    unfolding declared_def by (rule node_loop_inv) (simp add: node_inv_def)
  then have "rel_inv (fst declared) (declared, [])"
    by (simp add: rel_inv_def list_all_iff)
  then have inv: "rel_inv (fst declared) final"
    unfolding final_def by (rule rel_loop_inv)
  have decl: "variable n \<in> set (declared_variables q)" if "n \<in> set (fst declared)" for n
    using node_loop_nodes [of n "([], Map.empty)" "rx_exec_all nodePattern nq"] that
    by (auto simp: declared_def declared_variables_def nq_def)
  have main: "(\<exists>n \<in> set (fst (fst final)). variable n = v)
        \<and> (v \<notin> set (declared_variables q) \<longrightarrow> placeholder v \<in> set (fst (fst final)))"
    if r: "r \<in> set (snd final)" and v: "v \<in> {source r, target r}" for r v
  proof -
    from inv r v have "v \<in> dom (snd (fst final))"
      by (auto simp: rel_inv_def list_all_iff)
    with inv obtain n where n: "n \<in> set (fst (fst final))" "variable n = v"
      by (auto simp: rel_inv_def node_inv_def)
    from inv n(1) have "n \<in> set (fst declared) \<or> n = placeholder (variable n)"
      by (auto simp: rel_inv_def list_all_iff)
    with n decl have "v \<notin> set (declared_variables q) \<longrightarrow> placeholder v \<in> set (fst (fst final))"
      by auto
    with n show ?thesis by blast
  qed
  have ex: "parseCypherQuery ''(a)-[:X]->(c)'' =
       \<lparr>nodes = [\<lparr>variable = ''a'', labels = [], properties = None\<rparr>,
                 \<lparr>variable = ''c'', labels = [], properties = None\<rparr>],
        relationships = [\<lparr>rel_variable = None, rel_type = ''X'', source = ''a'',
                           target = ''c'', rel_properties = None\<rparr>]\<rparr>"
    by code_simp
  show ?thesis
    unfolding p using main ex by simp
qed

lemma nested_example:
  "parseCypherQuery ''(x {y: (a)-->(c) })'' =
     \<lparr>nodes = [\<lparr>variable = ''x'', labels = [], properties = Some [(''y'', ''(a)-->(c)'')]\<rparr>,
               \<lparr>variable = ''a'', labels = [], properties = None\<rparr>,
               \<lparr>variable = ''c'', labels = [], properties = None\<rparr>],
      relationships = [\<lparr>rel_variable = None, rel_type = ''RELATED_TO'', source = ''a'',
                         target = ''c'', rel_properties = None\<rparr>]\<rparr>"
  by code_simp

lemma nested_declared: "declared_variables ''(x {y: (a)-->(c) })'' = [''x'']"
  by code_simp

theorem parseCypherQuery_endpoints_witness:
  "relationships (parseCypherQuery ''(x {y: (a)-->(c) })'') =
     [\<lparr>rel_variable = None, rel_type = ''RELATED_TO'', source = ''a'', target = ''c'',
       rel_properties = None\<rparr>]
   \<and> ''c'' \<notin> set (declared_variables ''(x {y: (a)-->(c) })'')
   \<and> placeholder ''c'' \<in> set (nodes (parseCypherQuery ''(x {y: (a)-->(c) })''))
   \<and> placeholder ''a'' \<in> set (nodes (parseCypherQuery ''(x {y: (a)-->(c) })''))"
proof -
  let ?q = "''(x {y: (a)-->(c) })''"
  let ?r = "\<lparr>rel_variable = None, rel_type = ''RELATED_TO'', source = ''a'', target = ''c'',
       rel_properties = None\<rparr>"
  have rels: "relationships (parseCypherQuery ?q) = [?r]"
    by (simp add: nested_example)
  have nd: "''c'' \<notin> set (declared_variables ?q)" "''a'' \<notin> set (declared_variables ?q)"
    by (simp_all add: nested_declared)
  from parseCypherQuery_endpoints [of ?q]
  have all: "\<forall>r \<in> set (relationships (parseCypherQuery ?q)).
      \<forall>v \<in> {source r, target r}.
        (\<exists>n \<in> set (nodes (parseCypherQuery ?q)). variable n = v)
        \<and> (v \<notin> set (declared_variables ?q) \<longrightarrow>
             placeholder v \<in> set (nodes (parseCypherQuery ?q)))"
    by (rule conjunct1)
  have "?r \<in> set (relationships (parseCypherQuery ?q))"
    using rels by simp
  with all have "\<forall>v \<in> {source ?r, target ?r}.
        (\<exists>n \<in> set (nodes (parseCypherQuery ?q)). variable n = v)
        \<and> (v \<notin> set (declared_variables ?q) \<longrightarrow>
             placeholder v \<in> set (nodes (parseCypherQuery ?q)))"
    by (rule bspec)
  then have "placeholder ''c'' \<in> set (nodes (parseCypherQuery ?q))"
    and "placeholder ''a'' \<in> set (nodes (parseCypherQuery ?q))"
    using nd by simp_all
  with rels nd show ?thesis by simp
qed

text \<open>
  C3, as the code has it. On \<open>(a:Person)-[:KNOWS]->(b:Person)\<close> the result has the two
  nodes \<open>a\<close> and \<open>b\<close>, each with the label list \<open>[Person]\<close>, and no relationship: the
  relationship pattern asks for a bare variable between the parentheses on both sides.
  On \<open>(a)-[:KNOWS]->(b)\<close> the result has the nodes \<open>a\<close> and \<open>b\<close> without labels and the
  one relationship of type \<open>KNOWS\<close> from \<open>a\<close> to \<open>b\<close>.
\<close>

theorem parseCypherQuery_knows_example:
  "parseCypherQuery ''(a:Person)-[:KNOWS]->(b:Person)'' =
     \<lparr>nodes = [\<lparr>variable = ''a'', labels = [''Person''], properties = None\<rparr>,
               \<lparr>variable = ''b'', labels = [''Person''], properties = None\<rparr>],
      relationships = []\<rparr>
   \<and> parseCypherQuery ''(a)-[:KNOWS]->(b)'' =
     \<lparr>nodes = [\<lparr>variable = ''a'', labels = [], properties = None\<rparr>,
               \<lparr>variable = ''b'', labels = [], properties = None\<rparr>],
      relationships = [\<lparr>rel_variable = None, rel_type = ''KNOWS'', source = ''a'',
                         target = ''b'', rel_properties = None\<rparr>]\<rparr>"
  by code_simp

text \<open>
  C3, the example as stated. The result on the labelled text does not have one
  relationship: it has none.
\<close>

theorem parseCypherQuery_labelled_endpoints:
  "length (relationships (parseCypherQuery ''(a:Person)-[:KNOWS]->(b:Person)'')) \<noteq> 1
   \<and> relationships (parseCypherQuery ''(a:Person)-[:KNOWS]->(b:Person)'') = []"
  by code_simp

subsection \<open>The classifier\<close>

lemma find_sub_complete: "s = b @ sep @ a \<Longrightarrow> find_sub sep s \<noteq> None"
proof (induction b arbitrary: s)
  case Nil
  then have "prefix sep s" by simp
  then show ?case by (cases s) auto
next
  case (Cons x b)
  then show ?case by (auto split: option.splits)
qed

lemma includes_str_iff: "includes_str sep s \<longleftrightarrow> (\<exists>b a. s = b @ sep @ a)"
  unfolding includes_str_def
  using find_sub_complete find_sub_decomp by (metis not_None_eq surj_pair)

lemma dropWhile_keeps:
  assumes "sep \<noteq> []" and "\<not> P (hd sep)"
  shows "\<exists>b'. dropWhile P (b @ sep @ a) = b' @ sep @ a"
proof (cases "\<forall>x \<in> set b. P x")
  case True
  then have "dropWhile P (b @ sep @ a) = dropWhile P (sep @ a)"
    by (simp add: dropWhile_append2)
  also from assms have "\<dots> = sep @ a"
    by (cases sep) simp_all
  finally show ?thesis by (intro exI [of _ "[]"]) simp
next
  case False
  then obtain x where "x \<in> set b" "\<not> P x" by blast
  then have "dropWhile P (b @ sep @ a) = dropWhile P b @ sep @ a"
    by (rule dropWhile_append1)
  then show ?thesis by blast
qed

lemma trim_keeps:
  assumes "sep \<noteq> []" and "\<not> is_space (hd sep)" and "\<not> is_space (last sep)"
  shows "\<exists>b' a'. trim (b @ sep @ a) = b' @ sep @ a'"
proof -
  from dropWhile_keeps [of sep is_space b a, OF assms(1,2)] obtain b' where
    1: "dropWhile is_space (b @ sep @ a) = b' @ sep @ a" by blast
  have "rev sep \<noteq> []" "\<not> is_space (hd (rev sep))"
    using assms by (simp_all add: hd_rev)
  from dropWhile_keeps [of "rev sep" is_space "rev a" "rev b'", OF this] obtain a' where
    2: "dropWhile is_space (rev a @ rev sep @ rev b') = a' @ rev sep @ rev b'" by blast
  have "trim (b @ sep @ a) = b' @ sep @ rev a'"
    unfolding trim_def 1 using 2 by simp
  then show ?thesis by blast
qed

lemma trim_inside: "\<exists>l r. s = l @ trim s @ r"
proof -
  let ?t = "dropWhile is_space s"
  have "s = takeWhile is_space s @ ?t" by simp
  moreover have "rev ?t = takeWhile is_space (rev ?t) @ dropWhile is_space (rev ?t)" by simp
  then have "?t = trim s @ rev (takeWhile is_space (rev ?t))"
    unfolding trim_def by (metis rev_append rev_rev_ident)
  ultimately have "s = takeWhile is_space s @ trim s @ rev (takeWhile is_space (rev ?t))"
    by simp
  then show ?thesis by blast
qed

lemma includes_str_trim:
  assumes "sep \<noteq> []" and "\<not> is_space (hd sep)" and "\<not> is_space (last sep)"
  shows "includes_str sep (trim s) = includes_str sep s"
proof
  assume "includes_str sep (trim s)"
  then obtain b a where "trim s = b @ sep @ a" by (auto simp: includes_str_iff)
  moreover obtain l r where "s = l @ trim s @ r" using trim_inside by blast
  ultimately have "s = (l @ b) @ sep @ (a @ r)" by simp
  then show "includes_str sep s" unfolding includes_str_iff by blast
next
  assume "includes_str sep s"
  then obtain b a where "s = b @ sep @ a" by (auto simp: includes_str_iff)
  with trim_keeps [OF assms, of b a] show "includes_str sep (trim s)"
    unfolding includes_str_iff by auto
qed

lemma toUpperCase_colon: "CHR '':'' \<in> set s \<Longrightarrow> CHR '':'' \<in> set (toUpperCase s)"
proof -
  assume "CHR '':'' \<in> set s"
  moreover have "upper_char CHR '':'' = '':''" by code_simp
  ultimately show ?thesis unfolding toUpperCase_def by force
qed

lemma marker_not_stop:
  assumes "includes_str sep t" and "CHR '':'' \<in> set sep"
  shows "toUpperCase t \<noteq> ''STOP''"
proof -
  from assms have "CHR '':'' \<in> set t" by (auto simp: includes_str_iff)
  then have "CHR '':'' \<in> set (toUpperCase t)" by (rule toUpperCase_colon)
  then show ?thesis by auto
qed

lemma split_str_second:
  assumes "sep \<noteq> []" and "includes_str sep s"
  shows "\<exists>b a. find_sub sep s = Some (b, a)
           \<and> 1 < length (split_str sep s)
           \<and> split_str sep s ! 1 = (case find_sub sep a of None \<Rightarrow> a | Some (b', a') \<Rightarrow> b')"
proof -
  from assms(2) obtain b a where f: "find_sub sep s = Some (b, a)"
    by (auto simp: includes_str_def)
  have 1: "split_str sep s = b # split_str sep a"
    using assms(1) f by (simp add: split_str.simps [of sep s])
  have 2: "split_str sep a = (case find_sub sep a of None \<Rightarrow> [a] | Some (b', a') \<Rightarrow> b' # split_str sep a')"
    using assms(1) by (simp add: split_str.simps [of sep a])
  show ?thesis
    using f 1 2 by (auto split: option.splits)
qed

lemma marker_facts:
  "ENTITY_SEARCH_PREFIX \<noteq> []" "\<not> is_space (hd ENTITY_SEARCH_PREFIX)"
  "\<not> is_space (last ENTITY_SEARCH_PREFIX)" "CHR '':'' \<in> set ENTITY_SEARCH_PREFIX"
  "PROPERTIES_SEARCH_PREFIX \<noteq> []" "\<not> is_space (hd PROPERTIES_SEARCH_PREFIX)"
  "\<not> is_space (last PROPERTIES_SEARCH_PREFIX)" "CHR '':'' \<in> set PROPERTIES_SEARCH_PREFIX"
  by (simp_all add: ENTITY_SEARCH_PREFIX_def PROPERTIES_SEARCH_PREFIX_def is_space_def)

text \<open>
  C5. The tests run in a fixed order. A reply that contains the marker \<open>Entity Search:\<close>
  anywhere is an entity search, also when it contains \<open>Properties Search:\<close> as well; a
  reply without the entity marker that contains \<open>Properties Search:\<close> anywhere is a
  properties search; and a reply is a related-entities search only when its trimmed text
  starts with \<open>Tail Search:\<close>, so the marker after a preamble does not count.
\<close>

theorem classify_priority:
  "(includes_str ENTITY_SEARCH_PREFIX t1 \<and> includes_str PROPERTIES_SEARCH_PREFIX t1
      \<longrightarrow> (\<exists>p. classify t1 = EntitySearch p))
   \<and> (\<not> includes_str ENTITY_SEARCH_PREFIX t2 \<and> includes_str PROPERTIES_SEARCH_PREFIX t2
      \<longrightarrow> (\<exists>p. classify t2 = PropertiesSearch p))
   \<and> (\<not> startsWith TAIL_SEARCH_PREFIX (trim t3) \<longrightarrow> classify t3 \<noteq> RelatedEntitiesSearch p3)"
proof (intro conjI impI)
  assume a: "includes_str ENTITY_SEARCH_PREFIX t1 \<and> includes_str PROPERTIES_SEARCH_PREFIX t1"
  then have e: "includes_str ENTITY_SEARCH_PREFIX (trim t1)"
    by (simp add: includes_str_trim marker_facts)
  then have "toUpperCase (trim t1) \<noteq> ''STOP''"
    by (rule marker_not_stop) (rule marker_facts)
  with e show "\<exists>p. classify t1 = EntitySearch p"
    by (simp add: classify_def)
next
  assume a: "\<not> includes_str ENTITY_SEARCH_PREFIX t2 \<and> includes_str PROPERTIES_SEARCH_PREFIX t2"
  then have e: "\<not> includes_str ENTITY_SEARCH_PREFIX (trim t2)"
    and p: "includes_str PROPERTIES_SEARCH_PREFIX (trim t2)"
    by (simp_all add: includes_str_trim marker_facts)
  from p have "toUpperCase (trim t2) \<noteq> ''STOP''"
    by (rule marker_not_stop) (rule marker_facts)
  with e p show "\<exists>p. classify t2 = PropertiesSearch p"
    by (simp add: classify_def)
next
  assume "\<not> startsWith TAIL_SEARCH_PREFIX (trim t3)"
  then show "classify t3 \<noteq> RelatedEntitiesSearch p3"
    by (simp add: classify_def Let_def)
qed

lemma classify_examples:
  "classify ''Properties Search: e7, then Entity Search: Marie Curie '' = EntitySearch ''Marie Curie''"
  "classify ''Next: Properties Search: e7'' = PropertiesSearch ''e7''"
  "classify ''Next: Tail Search: e7, KNOWS'' = Invalid"
  "classify ''  Tail Search: e7, KNOWS'' = RelatedEntitiesSearch ''e7, KNOWS''"
  "classify ''  Stop  '' = Stop"
  by code_simp+

theorem classify_priority_witness:
  "includes_str ENTITY_SEARCH_PREFIX ''Properties Search: e7, then Entity Search: Marie Curie ''
   \<and> includes_str PROPERTIES_SEARCH_PREFIX ''Properties Search: e7, then Entity Search: Marie Curie ''
   \<and> (\<exists>p. classify ''Properties Search: e7, then Entity Search: Marie Curie '' = EntitySearch p)
   \<and> \<not> includes_str ENTITY_SEARCH_PREFIX ''Next: Properties Search: e7''
   \<and> includes_str PROPERTIES_SEARCH_PREFIX ''Next: Properties Search: e7''
   \<and> (\<exists>p. classify ''Next: Properties Search: e7'' = PropertiesSearch p)
   \<and> \<not> startsWith TAIL_SEARCH_PREFIX (trim ''Next: Tail Search: e7, KNOWS'')
   \<and> classify ''Next: Tail Search: e7, KNOWS'' \<noteq> RelatedEntitiesSearch ''e7, KNOWS''"
proof -
  let ?t1 = "''Properties Search: e7, then Entity Search: Marie Curie ''"
  let ?t2 = "''Next: Properties Search: e7''"
  let ?t3 = "''Next: Tail Search: e7, KNOWS''"
  have h1: "includes_str ENTITY_SEARCH_PREFIX ?t1 \<and> includes_str PROPERTIES_SEARCH_PREFIX ?t1"
    by code_simp
  have h2: "\<not> includes_str ENTITY_SEARCH_PREFIX ?t2 \<and> includes_str PROPERTIES_SEARCH_PREFIX ?t2"
    by code_simp
  have h3: "\<not> startsWith TAIL_SEARCH_PREFIX (trim ?t3)"
    by code_simp
  from classify_priority [of ?t1 ?t2 ?t3 "''e7, KNOWS''"] h1 h2 h3
  show ?thesis by blast
qed

text \<open>
  C7. The argument of an entity search is element 1 of the split at the marker: the text
  between the first occurrence of the marker and the next one, trimmed. Text after a
  second occurrence of the marker is not part of it.
\<close>

theorem classify_second_marker:
  "classify ''Entity Search: foo Entity Search: bar'' = EntitySearch ''foo''
   \<and> classify ''Properties Search: e1 Properties Search: e2'' = PropertiesSearch ''e1''
   \<and> classify ''Tail Search: e1, Tail Search: e2'' = RelatedEntitiesSearch ''e1, Tail Search: e2''"
  by code_simp

subsection \<open>The search handlers\<close>

lemma split_comma_length: "length (split_str [c] s) = Suc (count_list s c)"
proof (induction s)
  case Nil
  then show ?case by (simp add: split_str.simps [of "[c]" "[]"])
next
  case (Cons x xs)
  show ?case
  proof (cases "x = c")
    case True
    have "split_str [c] (c # xs) = [] # split_str [c] xs"
      by (simp add: split_str.simps [of "[c]" "c # xs"])
    with Cons.IH True show ?thesis by simp
  next
    case False
    then have "length (split_str [c] (x # xs)) = length (split_str [c] xs)"
      by (simp add: split_str.simps [of "[c]" "x # xs"] split_str.simps [of "[c]" xs]
            split: option.splits)
    with Cons.IH False show ?thesis by simp
  qed
qed

lemma find_sub_char: "c \<notin> set b \<Longrightarrow> find_sub [c] (b @ c # a) = Some (b, a)"
  by (induction b) auto

lemma find_sub_char_none: "c \<notin> set a \<Longrightarrow> find_sub [c] a = None"
  by (induction a) auto

lemma split_one_comma:
  "c \<notin> set b \<Longrightarrow> c \<notin> set a \<Longrightarrow> split_str [c] (b @ c # a) = [b, a]"
  by (simp add: split_str.simps [of "[c]" "b @ c # a"] split_str.simps [of "[c]" a]
        find_sub_char find_sub_char_none)

lemma split_two_fields:
  assumes "length (split_str [c] s) = 2"
  shows "\<exists>b a. s = b @ c # a \<and> c \<notin> set b \<and> c \<notin> set a \<and> split_str [c] s = [b, a]"
proof -
  from assms have one: "count_list s c = 1"
    by (simp add: split_comma_length)
  then have "c \<in> set s"
    by (metis count_list_0_iff zero_neq_one)
  then obtain b a where s: "s = b @ c # a" and b: "c \<notin> set b"
    by (auto dest: split_list_first)
  with one have "count_list a c = 0" by simp
  then have a: "c \<notin> set a" by (simp add: count_list_0_iff)
  with s b show ?thesis by (auto simp: split_one_comma)
qed

lemma trim_subset: "set (trim s) \<subseteq> set s"
  unfolding trim_def by (metis set_rev set_dropWhileD subsetI)

lemma runCypherQuery_connected:
  "isConnected w (history w) \<Longrightarrow>
   snd (runCypherQuery w q params) = w\<lparr>history := history w @ [Queried q params]\<rparr>"
  by (simp add: runCypherQuery_def)

lemma runCypherQuery_world:
  "snd (runCypherQuery w q params) =
     (if isConnected w (history w) then w\<lparr>history := history w @ [Queried q params]\<rparr> else w)"
  by (simp add: runCypherQuery_def)

lemma handleRelatedEntitiesSearch_query:
  assumes "length (split_str '','' text) = 2"
  shows "\<exists>m. handleRelatedEntitiesSearch w text =
     sendMessages
       (snd (runCypherQuery w (related_query (trim (split_str '','' text ! 1)))
               (JObj [(''entityId'', JStr (trim (split_str '','' text ! 0)))]))) [m]"
  using assms unfolding handleRelatedEntitiesSearch_def Let_def
  by (auto split: prod.splits sum.splits)

lemma handleEntitySearch_query:
  "\<exists>m. handleEntitySearch w searchTerm =
     sendMessages
       (snd (runCypherQuery w ENTITY_SEARCH_QUERY (JObj [(''searchTerm'', JStr searchTerm)]))) [m]"
  unfolding handleEntitySearch_def
  by (auto split: prod.splits sum.splits)

lemma handlePropertiesSearch_query:
  "\<exists>m. handlePropertiesSearch w entityId =
     sendMessages
       (snd (runCypherQuery w PROPERTIES_SEARCH_QUERY (JObj [(''entityId'', JStr entityId)]))) [m]"
  unfolding handlePropertiesSearch_def
  by (auto split: prod.splits sum.splits)

lemma sendMessages_world: "snd (sendMessages w ms) = w\<lparr>history := history w @ [Sent ms]\<rparr>"
  by (simp add: sendMessages_def)

lemma grows_refl: "grows k w w"
  unfolding grows_def by (intro exI [of _ "[]"]) (simp add: sends_def queries_def)

lemma grows_trans: "grows j w w1 \<Longrightarrow> grows k w1 w2 \<Longrightarrow> grows (j + k) w w2"
proof -
  assume "grows j w w1" and "grows k w1 w2"
  then obtain e1 e2 where
    1: "w1 = w\<lparr>history := history w @ e1\<rparr>" "sends e1 \<le> j" "queries e1 \<le> j" and
    2: "w2 = w1\<lparr>history := history w1 @ e2\<rparr>" "sends e2 \<le> k" "queries e2 \<le> k"
    unfolding grows_def by blast
  have "w2 = w\<lparr>history := history w @ (e1 @ e2)\<rparr>"
    using 1(1) 2(1) by simp
  moreover have "sends (e1 @ e2) \<le> j + k" "queries (e1 @ e2) \<le> j + k"
    using 1(2,3) 2(2,3) by (simp_all add: sends_def queries_def)
  ultimately show ?thesis unfolding grows_def by blast
qed

lemma query_then_send:
  "grows (Suc 0) w (snd (sendMessages (snd (runCypherQuery w q params)) [m]))"
  unfolding grows_def
  by (intro exI [of _ "if isConnected w (history w) then [Queried q params, Sent [m]] else [Sent [m]]"])
     (simp add: sendMessages_world runCypherQuery_world sends_def queries_def)

lemma send_grows: "grows (Suc 0) w (snd (sendMessages w [m]))"
  unfolding grows_def
  by (intro exI [of _ "[Sent [m]]"]) (simp add: sendMessages_world sends_def queries_def)

lemma handleEntitySearch_grows: "grows (Suc 0) w (snd (handleEntitySearch w x))"
  using handleEntitySearch_query [of w x] by (auto simp: query_then_send)

lemma handlePropertiesSearch_grows: "grows (Suc 0) w (snd (handlePropertiesSearch w x))"
  using handlePropertiesSearch_query [of w x] by (auto simp: query_then_send)

lemma handleRelatedEntitiesSearch_grows: "grows (Suc 0) w (snd (handleRelatedEntitiesSearch w x))"
proof (cases "length (split_str '','' x) = 2")
  case True
  from handleRelatedEntitiesSearch_query [OF True, of w] show ?thesis
    by (auto simp: query_then_send)
next
  case False
  then show ?thesis
    by (simp add: handleRelatedEntitiesSearch_def send_grows)
qed

subsection \<open>The loop\<close>

lemma queryBuildingLoop_exit:
  "\<not> n < QUERY_BUILDING_MAX_LOOPS \<Longrightarrow> queryBuildingLoop n r w = (n, r, w)"
  by (simp add: queryBuildingLoop.simps [of n r w])

lemma queryBuildingLoop_bounded:
  "n \<le> 20 \<Longrightarrow>
   \<exists>n' r' w'. queryBuildingLoop n r w = (n', r', w') \<and> n \<le> n' \<and> n' \<le> 20 \<and> grows (n' - n) w w'"
proof (induction "20 - n" arbitrary: n r w)
  case 0
  then have "queryBuildingLoop n r w = (n, r, w)"
    by (intro queryBuildingLoop_exit) (simp add: QUERY_BUILDING_MAX_LOOPS_def)
  with 0 show ?case by (simp add: grows_refl)
next
  case (Suc k)
  then have lt: "n < QUERY_BUILDING_MAX_LOOPS" and k: "k = 20 - Suc n" and le: "Suc n \<le> 20"
    by (simp_all add: QUERY_BUILDING_MAX_LOOPS_def)
  have step: "\<exists>n' r' w'. queryBuildingLoop (n + 1) r1 w1 = (n', r', w') \<and> n \<le> n' \<and> n' \<le> 20
      \<and> grows (n' - n) w w'" if g: "grows (Suc 0) w w1" for r1 w1
  proof -
    from Suc.hyps(1) [OF k le, of r1 w1] obtain n' r' w' where
      l: "queryBuildingLoop (Suc n) r1 w1 = (n', r', w')" "Suc n \<le> n'" "n' \<le> 20"
         "grows (n' - Suc n) w1 w'"
      by blast
    from l(2) have "Suc 0 + (n' - Suc n) = n' - n" by simp
    with grows_trans [OF g l(4)] have "grows (n' - n) w w'" by simp
    with l show ?thesis by simp
  qed
  show ?case
  proof (cases "classify (content r)")
    case Stop
    with lt have "queryBuildingLoop n r w = (n + 1, r, w)"
      by (simp add: queryBuildingLoop.simps [of n r w])
    with le show ?thesis by (simp add: grows_refl)
  next
    case (EntitySearch x)
    with lt have "queryBuildingLoop n r w =
        queryBuildingLoop (n + 1) (fst (handleEntitySearch w x)) (snd (handleEntitySearch w x))"
      by (simp add: queryBuildingLoop.simps [of n r w] split: prod.splits)
    with step [OF handleEntitySearch_grows] show ?thesis by simp
  next
    case (PropertiesSearch x)
    with lt have "queryBuildingLoop n r w =
        queryBuildingLoop (n + 1) (fst (handlePropertiesSearch w x)) (snd (handlePropertiesSearch w x))"
      by (simp add: queryBuildingLoop.simps [of n r w] split: prod.splits)
    with step [OF handlePropertiesSearch_grows] show ?thesis by simp
  next
    case (RelatedEntitiesSearch x)
    with lt have "queryBuildingLoop n r w =
        queryBuildingLoop (n + 1) (fst (handleRelatedEntitiesSearch w x))
          (snd (handleRelatedEntitiesSearch w x))"
      by (simp add: queryBuildingLoop.simps [of n r w] split: prod.splits)
    with step [OF handleRelatedEntitiesSearch_grows] show ?thesis by simp
  next
    case Invalid
    with lt have "queryBuildingLoop n r w =
        queryBuildingLoop (n + 1) (fst (sendMessages w [invalid_response_message]))
          (snd (sendMessages w [invalid_response_message]))"
      by (simp add: queryBuildingLoop.simps [of n r w] split: prod.splits)
    with step [OF send_grows] show ?thesis by simp
  qed
qed

text \<open>
  C2. Whatever the model replies and whatever the store does, the loop is left with its
  counter at 20 or less, after at most 20 messages sent and at most 20 queries run since
  the initial message; then the final query-construction message is sent, and the
  workflow returns the reply to it.
\<close>

theorem queryBuildingWorkflow_bounded:
  "\<exists>n lastResponse evs.
     queryBuildingLoop 0 (reply w (history w) [initial_message])
         (w\<lparr>history := history w @ [Sent [initial_message]]\<rparr>)
       = (n, lastResponse, w\<lparr>history := history w @ [Sent [initial_message]] @ evs\<rparr>)
     \<and> n \<le> 20 \<and> sends evs \<le> 20 \<and> queries evs \<le> 20
     \<and> queryBuildingWorkflow w text =
         (reply w (history w @ [Sent [initial_message]] @ evs) [final_message text],
          w\<lparr>history := history w @ [Sent [initial_message]] @ evs @ [Sent [final_message text]]\<rparr>)"
proof -
  let ?r0 = "reply w (history w) [initial_message]"
  let ?w1 = "w\<lparr>history := history w @ [Sent [initial_message]]\<rparr>"
  from queryBuildingLoop_bounded [of 0 ?r0 ?w1] obtain n r' w' where
    l: "queryBuildingLoop 0 ?r0 ?w1 = (n, r', w')" "n \<le> 20" "grows n ?w1 w'"
    by auto
  from l(3) obtain evs where
    e: "w' = ?w1\<lparr>history := history ?w1 @ evs\<rparr>" "sends evs \<le> n" "queries evs \<le> n"
    unfolding grows_def by blast
  have w': "w' = w\<lparr>history := history w @ [Sent [initial_message]] @ evs\<rparr>"
    using e(1) by simp
  have "queryBuildingWorkflow w text = sendMessages w' [final_message text]"
    using l(1) by (simp add: queryBuildingWorkflow_def sendMessages_def)
  then have "queryBuildingWorkflow w text =
         (reply w (history w @ [Sent [initial_message]] @ evs) [final_message text],
          w\<lparr>history := history w @ [Sent [initial_message]] @ evs @ [Sent [final_message text]]\<rparr>)"
    unfolding w' by (simp add: sendMessages_def)
  with l(1,2) e(2,3) w' show ?thesis
    by (intro exI [of _ n] exI [of _ r'] exI [of _ evs]) simp
qed

theorem queryBuildingWorkflow_bounded_witness:
  "\<exists>n lastResponse evs.
     queryBuildingLoop 0 (reply chatty_world (history chatty_world) [initial_message])
         (chatty_world\<lparr>history := history chatty_world @ [Sent [initial_message]]\<rparr>)
       = (n, lastResponse,
          chatty_world\<lparr>history := history chatty_world @ [Sent [initial_message]] @ evs\<rparr>)
     \<and> n \<le> 20 \<and> sends evs \<le> 20 \<and> queries evs \<le> 20
     \<and> queryBuildingWorkflow chatty_world ''Who discovered radium?'' =
         (reply chatty_world (history chatty_world @ [Sent [initial_message]] @ evs)
            [final_message ''Who discovered radium?''],
          chatty_world\<lparr>history := history chatty_world @ [Sent [initial_message]] @ evs
            @ [Sent [final_message ''Who discovered radium?'']]\<rparr>)"
  by (rule queryBuildingWorkflow_bounded)

lemma always_failing_searches:
  "fst (queryBuildingLoop 0 (reply chatty_world [] [initial_message])
          (chatty_world\<lparr>history := [Sent [initial_message]]\<rparr>)) = 20"
  by code_simp

lemma always_invalid_replies:
  "fst (queryBuildingLoop 0 (reply babbling_world [] [initial_message])
          (babbling_world\<lparr>history := [Sent [initial_message]]\<rparr>)) = 20"
  by code_simp

lemma stop_at_once:
  "history (snd (queryBuildingWorkflow online_world ''Who discovered radium?''))
       = [Sent [initial_message], Sent [final_message ''Who discovered radium?'']]"
  by code_simp

subsection \<open>Related-entities searches\<close>

text \<open>
  C6, as the code has it. A text with any number of commas other than one gets the format
  error as a system message and no query is run. A text with exactly one comma is split
  there: the trimmed text before the comma is the entity id, the trimmed text after it is
  the relationship type, either of them possibly empty, and with a connected store the
  query is run with them. \<open>abc123, KNOWS\<close> gives the fields \<open>abc123\<close> and \<open>KNOWS\<close>.
\<close>

theorem handleRelatedEntitiesSearch_fields:
  "(count_list t1 CHR '','' \<noteq> 1 \<longrightarrow>
      handleRelatedEntitiesSearch w1 t1 = sendMessages w1 [format_error_message])
   \<and> (CHR '','' \<notin> set b \<and> CHR '','' \<notin> set a \<and> isConnected w2 (history w2) \<longrightarrow>
        (\<exists>m. handleRelatedEntitiesSearch w2 (b @ '','' @ a) =
           sendMessages
             (w2\<lparr>history := history w2 @
                   [Queried (related_query (trim a)) (JObj [(''entityId'', JStr (trim b))])]\<rparr>)
             [m]))
   \<and> map trim (split_str '','' ''abc123, KNOWS'') = [''abc123'', ''KNOWS'']
   \<and> role format_error_message = System"
proof (intro conjI impI)
  assume "count_list t1 CHR '','' \<noteq> 1"
  then have "length (split_str '','' t1) \<noteq> 2"
    by (simp add: split_comma_length)
  then show "handleRelatedEntitiesSearch w1 t1 = sendMessages w1 [format_error_message]"
    by (simp add: handleRelatedEntitiesSearch_def)
next
  assume h: "CHR '','' \<notin> set b \<and> CHR '','' \<notin> set a \<and> isConnected w2 (history w2)"
  then have sp: "split_str '','' (b @ '','' @ a) = [b, a]"
    using split_one_comma [of "CHR '',''" b a] by simp
  then have "length (split_str '','' (b @ '','' @ a)) = 2" by simp
  from handleRelatedEntitiesSearch_query [OF this, of w2] sp h
  show "\<exists>m. handleRelatedEntitiesSearch w2 (b @ '','' @ a) =
           sendMessages
             (w2\<lparr>history := history w2 @
                   [Queried (related_query (trim a)) (JObj [(''entityId'', JStr (trim b))])]\<rparr>)
             [m]"
    by (simp add: runCypherQuery_connected)
next
  show "map trim (split_str '','' ''abc123, KNOWS'') = [''abc123'', ''KNOWS'']"
    by code_simp
next
  show "role format_error_message = System"
    by (simp add: format_error_message_def system_message_def)
qed

theorem handleRelatedEntitiesSearch_fields_witness:
  "count_list ''abc123'' CHR '','' \<noteq> 1
   \<and> handleRelatedEntitiesSearch online_world ''abc123''
       = sendMessages online_world [format_error_message]
   \<and> history (snd (handleRelatedEntitiesSearch online_world ''abc123''))
       = [Sent [format_error_message]]
   \<and> CHR '','' \<notin> set ''abc123'' \<and> CHR '','' \<notin> set '' KNOWS''
   \<and> isConnected online_world (history online_world)
   \<and> (\<exists>m. history (snd (handleRelatedEntitiesSearch online_world ''abc123, KNOWS''))
          = [Queried (related_query ''KNOWS'') (JObj [(''entityId'', JStr ''abc123'')]), Sent [m]])"
proof -
  have c: "count_list ''abc123'' CHR '','' \<noteq> 1"
    by simp
  have s: "CHR '','' \<notin> set ''abc123'' \<and> CHR '','' \<notin> set '' KNOWS''
      \<and> isConnected online_world (history online_world)"
    by (simp add: online_world_def)
  have t: "trim ''abc123'' = ''abc123''" "trim '' KNOWS'' = ''KNOWS''"
    by code_simp+
  have h: "history online_world = []"
    by (simp add: online_world_def)
  note inst = handleRelatedEntitiesSearch_fields
      [of "''abc123''" online_world "''abc123''" "'' KNOWS''" online_world]
  from inst c have 1: "handleRelatedEntitiesSearch online_world ''abc123''
       = sendMessages online_world [format_error_message]"
    by blast
  from inst s obtain m where 2: "handleRelatedEntitiesSearch online_world (''abc123'' @ '','' @ '' KNOWS'') =
           sendMessages
             (online_world\<lparr>history := history online_world @
                   [Queried (related_query (trim '' KNOWS'')) (JObj [(''entityId'', JStr (trim ''abc123''))])]\<rparr>)
             [m]"
    by blast
  have 3: "history (snd (handleRelatedEntitiesSearch online_world ''abc123, KNOWS''))
          = [Queried (related_query ''KNOWS'') (JObj [(''entityId'', JStr ''abc123'')]), Sent [m]]"
    using 2 t h by (simp add: sendMessages_def)
  have 4: "history (snd (handleRelatedEntitiesSearch online_world ''abc123''))
       = [Sent [format_error_message]]"
    using 1 h by (simp add: sendMessages_def)
  from c 1 4 s 3 show ?thesis by blast
qed

text \<open>
  C6, the fields as stated. The text \<open>,\<close> has exactly one comma and both fields empty: it is not refused, and the
  query is run with the empty entity id and the empty relationship type.
\<close>

theorem handleRelatedEntitiesSearch_empty_fields:
  "map trim (split_str '','' '','') = ['''', '''']
   \<and> hd (history (snd (handleRelatedEntitiesSearch online_world '','')))
       = Queried (related_query '''') (JObj [(''entityId'', JStr '''')])
   \<and> history (snd (handleRelatedEntitiesSearch online_world '',''))
       \<noteq> [Sent [format_error_message]]"
  by code_simp

text \<open>
  C1, as the code has it. When the text of a related-entities search has two fields and
  the store is connected, the query that is run is the template with the second field,
  trimmed, put in as it is, and the entity id goes as the parameter \<open>entityId\<close>. The
  relationship type has no comma; nothing else is tested about its characters.
\<close>

theorem handleRelatedEntitiesSearch_interpolates:
  "length (split_str '','' text) = 2 \<and> isConnected w (history w) \<longrightarrow>
     (\<exists>m. history (snd (handleRelatedEntitiesSearch w text)) =
        history w @
          [Queried (RELATED_QUERY_HEAD @ trim (split_str '','' text ! 1) @ RELATED_QUERY_TAIL)
             (JObj [(''entityId'', JStr (trim (split_str '','' text ! 0)))]),
           Sent [m]])
     \<and> CHR '','' \<notin> set (trim (split_str '','' text ! 1))"
proof
  assume h: "length (split_str '','' text) = 2 \<and> isConnected w (history w)"
  then have two: "length (split_str '','' text) = 2" by simp
  from handleRelatedEntitiesSearch_query [OF two, of w] h
  have "\<exists>m. history (snd (handleRelatedEntitiesSearch w text)) =
        history w @
          [Queried (RELATED_QUERY_HEAD @ trim (split_str '','' text ! 1) @ RELATED_QUERY_TAIL)
             (JObj [(''entityId'', JStr (trim (split_str '','' text ! 0)))]),
           Sent [m]]"
    by (auto simp: runCypherQuery_connected sendMessages_def related_query_def)
  moreover from split_two_fields [OF two] obtain b a where
    "split_str '','' text = [b, a]" "CHR '','' \<notin> set a" by blast
  then have "CHR '','' \<notin> set (trim (split_str '','' text ! 1))"
    using trim_subset [of a] by auto
  ultimately show "(\<exists>m. history (snd (handleRelatedEntitiesSearch w text)) =
        history w @
          [Queried (RELATED_QUERY_HEAD @ trim (split_str '','' text ! 1) @ RELATED_QUERY_TAIL)
             (JObj [(''entityId'', JStr (trim (split_str '','' text ! 0)))]),
           Sent [m]])
     \<and> CHR '','' \<notin> set (trim (split_str '','' text ! 1))"
    by blast
qed

theorem handleRelatedEntitiesSearch_interpolates_witness:
  "length (split_str '','' ''e1, RELATED_TO'') = 2
   \<and> isConnected online_world (history online_world)
   \<and> (\<exists>m. history (snd (handleRelatedEntitiesSearch online_world ''e1, RELATED_TO'')) =
          [Queried (RELATED_QUERY_HEAD @ ''RELATED_TO'' @ RELATED_QUERY_TAIL)
             (JObj [(''entityId'', JStr ''e1'')]),
           Sent [m]])"
proof -
  have sp: "split_str '','' ''e1, RELATED_TO'' = [''e1'', '' RELATED_TO'']"
    by code_simp
  have t: "trim ''e1'' = ''e1''" "trim '' RELATED_TO'' = ''RELATED_TO''"
    by code_simp+
  have h: "length (split_str '','' ''e1, RELATED_TO'') = 2
      \<and> isConnected online_world (history online_world)"
    using sp by (simp add: online_world_def)
  have e: "history online_world = []"
    by (simp add: online_world_def)
  from handleRelatedEntitiesSearch_interpolates [of "''e1, RELATED_TO''" online_world] h
  have "\<exists>m. history (snd (handleRelatedEntitiesSearch online_world ''e1, RELATED_TO'')) =
        history online_world @
          [Queried (RELATED_QUERY_HEAD @ trim (split_str '','' ''e1, RELATED_TO'' ! 1) @ RELATED_QUERY_TAIL)
             (JObj [(''entityId'', JStr (trim (split_str '','' ''e1, RELATED_TO'' ! 0)))]),
           Sent [m]]"
    by blast
  then have "\<exists>m. history (snd (handleRelatedEntitiesSearch online_world ''e1, RELATED_TO'')) =
          [Queried (RELATED_QUERY_HEAD @ ''RELATED_TO'' @ RELATED_QUERY_TAIL)
             (JObj [(''entityId'', JStr ''e1'')]),
           Sent [m]]"
    unfolding sp e using t by simp
  with h show ?thesis by blast
qed

text \<open>
  C1, as stated. A relationship type with characters outside the allow-list reaches the
  store inside the query text: here it closes the pattern and adds a clause of its own.
\<close>

theorem handleRelatedEntitiesSearch_unvalidated:
  "\<not> allowed_relationship_type ''X]->(e2) DETACH DELETE e2 //''
   \<and> hd (history (snd (handleRelatedEntitiesSearch online_world
            ''e1, X]->(e2) DETACH DELETE e2 //'')))
       = Queried (RELATED_QUERY_HEAD @ ''X]->(e2) DETACH DELETE e2 //'' @ RELATED_QUERY_TAIL)
           (JObj [(''entityId'', JStr ''e1'')])
   \<and> classify ''Tail Search: e1, X]->(e2) DETACH DELETE e2 //''
       = RelatedEntitiesSearch ''e1, X]->(e2) DETACH DELETE e2 //''"
  by code_simp

end
